theory Spec2Isabelle
  imports Main "HOL-Library.AList"
begin

section \<open>Python values met by the client\<close>

text \<open>
  The client reads its tool descriptors with \<^verbatim>\<open>getattr(obj, attr, default)\<close>, so an
  attribute of a descriptor has three states: the object has no such attribute, the
  attribute is there and holds \<^verbatim>\<open>None\<close>, or it holds a value.
\<close>

datatype 'a attr = Absent | IsNone | Has 'a

text \<open>What a text-valued expression of the translator evaluates to: \<^verbatim>\<open>None\<close> or a str.\<close>

datatype pyval = PyNone | PyStr string

text \<open>
  Python text handled by the chat loop is a sequence of code points: the exit keyword and
  the error texts are Cyrillic, and \<^verbatim>\<open>strip\<close> and \<^verbatim>\<open>lower\<close> work on code points.
\<close>

type_synonym ustr = "nat list"

text \<open>
  Exceptions raised by the collaborators (\<^verbatim>\<open>json.loads\<close>, the tool server, the completion
  endpoint). The constructor records whether the exception is an instance of
  \<^verbatim>\<open>json.JSONDecodeError\<close>, which is what selects the handler; the payload is \<^verbatim>\<open>str(e)\<close>.
  Only subclasses of \<^verbatim>\<open>Exception\<close> are modelled.
\<close>

datatype lib_error = JSONDecodeError ustr | OtherException ustr

datatype exn = AttributeError string | EOFError | LibError lib_error

section \<open>Tool descriptors\<close>

record mcp_argument =
  arg_name :: "string attr"
  arg_description :: "string attr"
  arg_required :: "bool attr"

record mcp_tool =
  tool_name :: "string attr"
  tool_description :: "string attr"
  tool_arguments :: "mcp_argument list attr"

text \<open>
  The target form is a nested dict. \<^verbatim>\<open>properties\<close> is a dict keyed by argument name: an
  association list in insertion order, where storing under a key that is already there
  replaces the value in place (\<^const>\<open>AList.update\<close>), as a Python dict does.
\<close>

record property =
  prop_type :: string
  prop_description :: pyval

record parameters =
  params_type :: string
  properties :: "(string \<times> property) list"
  required :: "string list"

record function_schema =
  fn_name :: pyval
  fn_description :: pyval
  fn_parameters :: parameters

record openai_tool =
  tool_type :: string
  tool_function :: function_schema

text \<open>The warning printed for an argument without a name; it carries the formatted tool name.\<close>

datatype warning = Arg_without_name pyval

section \<open>The translator \<^verbatim>\<open>mcp_tool_to_openai_tool\<close>\<close>

text \<open>\<^verbatim>\<open>getattr(obj, attr, default)\<close> on a text attribute.\<close>

fun getattr :: "string attr \<Rightarrow> pyval \<Rightarrow> pyval" where
  "getattr Absent d = d"
| "getattr IsNone d = PyNone"
| "getattr (Has s) d = PyStr s"

text \<open>Plain attribute access \<^verbatim>\<open>obj.attr\<close>: raises when the attribute is missing.\<close>

fun read_attr :: "string \<Rightarrow> string attr \<Rightarrow> exn + pyval" where
  "read_attr a Absent = Inl (AttributeError a)"
| "read_attr a IsNone = Inr PyNone"
| "read_attr a (Has s) = Inr (PyStr s)"

fun truthy :: "pyval \<Rightarrow> bool" where
  "truthy PyNone = False"
| "truthy (PyStr s) = (s \<noteq> [])"

text \<open>\<^verbatim>\<open>x or y\<close>.\<close>

definition py_or :: "pyval \<Rightarrow> pyval \<Rightarrow> pyval" where
  "py_or x y = (if truthy x then x else y)"

text \<open>Truth value of \<^verbatim>\<open>getattr(arg, 'required', False)\<close>.\<close>

fun required_flag :: "bool attr \<Rightarrow> bool" where
  "required_flag Absent = False"
| "required_flag IsNone = False"
| "required_flag (Has b) = b"

text \<open>The body of the \<^verbatim>\<open>for arg in mcp_arguments\<close> loop for an argument that has a name.\<close>

definition add_argument :: "string \<Rightarrow> mcp_argument \<Rightarrow> parameters \<Rightarrow> parameters" where
  "add_argument n a ps =
     (let arg_desc = py_or (getattr (arg_description a) (PyStr [])) (PyStr []);
          ps1 = ps\<lparr>properties :=
                  AList.update n \<lparr>prop_type = ''string'', prop_description = arg_desc\<rparr>
                    (properties ps)\<rparr>
      in if required_flag (arg_required a) then ps1\<lparr>required := required ps1 @ [n]\<rparr> else ps1)"

text \<open>
  The loop over the arguments. \<open>tn\<close> is the tool's name attribute, which the warning reads
  with \<^verbatim>\<open>mcp_tool.name\<close>; \<open>ws\<close> are the warnings printed so far.
\<close>

fun convert_arguments ::
  "string attr \<Rightarrow> mcp_argument list \<Rightarrow> parameters \<Rightarrow> warning list
     \<Rightarrow> warning list \<times> (exn + parameters)" where
  "convert_arguments tn [] ps ws = (ws, Inr ps)"
| "convert_arguments tn (a # as) ps ws =
     (let an = getattr (arg_name a) PyNone in
      if \<not> truthy an then
        (case read_attr ''name'' tn of
           Inl e \<Rightarrow> (ws, Inl e)
         | Inr v \<Rightarrow> convert_arguments tn as ps (ws @ [Arg_without_name v]))
      else
        (case an of
           PyStr n \<Rightarrow> convert_arguments tn as (add_argument n a ps) ws
         | PyNone \<Rightarrow> convert_arguments tn as ps ws))"

definition empty_parameters :: parameters where
  "empty_parameters = \<lparr>params_type = ''object'', properties = [], required = []\<rparr>"

text \<open>\<^verbatim>\<open>if mcp_arguments:\<close> holds for a list that is there and not empty.\<close>

fun arguments_of :: "mcp_argument list attr \<Rightarrow> mcp_argument list" where
  "arguments_of (Has as) = as"
| "arguments_of _ = []"

definition mcp_tool_to_openai_tool :: "mcp_tool \<Rightarrow> warning list \<times> (exn + openai_tool)" where
  "mcp_tool_to_openai_tool t =
     (case convert_arguments (tool_name t) (arguments_of (tool_arguments t)) empty_parameters [] of
        (ws, Inl e) \<Rightarrow> (ws, Inl e)
      | (ws, Inr ps) \<Rightarrow>
          (ws, Inr \<lparr>tool_type = ''function'',
                    tool_function =
                      \<lparr>fn_name = getattr (tool_name t) (PyStr ''unknown_tool''),
                       fn_description = py_or (getattr (tool_description t) (PyStr [])) (PyStr []),
                       fn_parameters = ps\<rparr>\<rparr>))"


text \<open>
  The list comprehension \<^verbatim>\<open>[mcp_tool_to_openai_tool(tool) for tool in mcp_tools_list]\<close>:
  the first descriptor that raises ends it.
\<close>

fun convert_tools :: "mcp_tool list \<Rightarrow> warning list \<times> (exn + openai_tool list)" where
  "convert_tools [] = ([], Inr [])"
| "convert_tools (t # ts) =
     (case mcp_tool_to_openai_tool t of
        (ws, Inl e) \<Rightarrow> (ws, Inl e)
      | (ws, Inr d) \<Rightarrow>
          (case convert_tools ts of
             (ws', Inl e) \<Rightarrow> (ws @ ws', Inl e)
           | (ws', Inr ds) \<Rightarrow> (ws @ ws', Inr (d # ds))))"

section \<open>Conversation history and requests\<close>

record tool_call =
  call_id :: ustr
  call_name :: ustr
  call_arguments :: ustr

text \<open>The message of a completion response: its content and its tool calls, either of
  which may be \<^verbatim>\<open>None\<close>.\<close>

record response_message =
  msg_content :: "ustr option"
  msg_tool_calls :: "tool_call list option"

datatype role = System | User | Assistant | Tool

text \<open>
  The entries of \<^verbatim>\<open>messages\<close>: the dicts the client builds, and the response message
  object that it appends as it is when the response carries tool calls.
  \<open>Tool_message id name content\<close> is the dict with role \<^verbatim>\<open>tool\<close>.
\<close>

datatype message =
    System_message ustr
  | User_message ustr
  | Assistant_message "ustr option"
  | Tool_message ustr ustr ustr
  | Response_object response_message

fun role_of :: "message \<Rightarrow> role" where
  "role_of (System_message c) = System"
| "role_of (User_message c) = User"
| "role_of (Assistant_message c) = Assistant"
| "role_of (Tool_message i n c) = Tool"
| "role_of (Response_object r) = Assistant"

text \<open>The call id and the function name a tool-role message carries.\<close>

fun tool_key :: "message \<Rightarrow> (ustr \<times> ustr) option" where
  "tool_key (Tool_message i n c) = Some (i, n)"
| "tool_key m = None"

text \<open>A keyword argument of \<^verbatim>\<open>chat.completions.create\<close> is passed or left out.\<close>

datatype 'a param = Not_given | Given 'a

record request =
  req_model :: string
  req_messages :: "message list"
  req_tools :: "openai_tool list option param"
  req_tool_choice :: "string param"

text \<open>A request carries a tool list when \<^verbatim>\<open>tools\<close> is passed and is not \<^verbatim>\<open>None\<close>.\<close>

fun has_tool_list :: "request \<Rightarrow> bool" where
  "has_tool_list r = (case req_tools r of Given (Some ts) \<Rightarrow> True | _ \<Rightarrow> False)"

section \<open>The collaborators\<close>

text \<open>
  What the client calls but does not define: the string methods of the Python runtime,
  \<^verbatim>\<open>json.loads\<close>, the completion endpoint and the tool server. Each is a parameter.
  \<^item> \<open>str_isspace\<close> tells which code points \<^verbatim>\<open>str.strip\<close> removes, \<open>str_lower\<close> is
    \<^verbatim>\<open>str.lower\<close>;
  \<^item> \<open>completions_create\<close> answers a request or raises (an empty \<^verbatim>\<open>choices\<close> list, on
    which \<^verbatim>\<open>choices[0]\<close> raises, counts as raising); within a session no two requests
    carry the same history, so a function of the request covers an endpoint with state;
  \<^item> \<open>json_loads\<close> decodes or raises: \<^verbatim>\<open>JSONDecodeError\<close> on text that is not JSON,
    or another exception (the recursion limit on deep nesting);
  \<^item> \<open>call_tool n name args\<close> is the \<open>n\<close>-th invocation of the session (counted from 0);
    it returns \<^verbatim>\<open>str\<close> of the result, the only use the client makes of it, or raises
    an exception of either class;
  \<^item> \<open>list_tools\<close> returns the \<^verbatim>\<open>tools\<close> attribute of the result or raises;
  \<^item> \<open>api_key_set\<close> tells whether the completion client could be set up with a key;
    \<open>stdio_connect\<close>, \<open>session_enter\<close> and \<open>session_initialize\<close> raise or succeed.
\<close>

record 'j environment =
  str_isspace :: "nat \<Rightarrow> bool"
  str_lower :: "ustr \<Rightarrow> ustr"
  json_loads :: "ustr \<Rightarrow> lib_error + 'j"
  completions_create :: "request \<Rightarrow> lib_error + response_message"
  call_tool :: "nat \<Rightarrow> ustr \<Rightarrow> 'j \<Rightarrow> lib_error + ustr"
  list_tools :: "lib_error + mcp_tool list attr"
  api_key_set :: bool
  stdio_connect :: "lib_error option"
  session_enter :: "lib_error option"
  session_initialize :: "lib_error option"

section \<open>The state of a session\<close>

text \<open>
  What the client prints, as events. The banners and progress lines that carry no data
  are left out.
\<close>

datatype 'j out_event =
    Setup_error
  | No_tools
  | Tools_received nat
  | Warned warning
  | Tools_converted
  | Tools_error exn
  | Exit_by_user
  | Calling_tools "ustr list"
  | Tool_arguments 'j
  | Tool_result ustr
  | Arguments_error ustr ustr
  | Tool_error ustr ustr
  | Assistant_says "ustr option"
  | Loop_error exn

text \<open>
  \<open>messages\<close> is the history; \<open>requests\<close> logs the completion requests in the order they
  were sent, \<open>invocations\<close> the calls made to the tool server; the two flags tell whether
  the scopes \<^verbatim>\<open>async with stdio_client(...)\<close> and \<^verbatim>\<open>async with ClientSession(...)\<close>
  are open.
\<close>

record 'j client_state =
  messages :: "message list"
  requests :: "request list"
  invocations :: "(ustr \<times> 'j) list"
  printed :: "'j out_event list"
  connection_open :: bool
  session_open :: bool

definition initial_state :: "'j client_state" where
  "initial_state = \<lparr>messages = [], requests = [], invocations = [], printed = [],
     connection_open = False, session_open = False\<rparr>"

section \<open>Constants of the client\<close>

text \<open>The exit keyword, five Cyrillic letters, as code points.\<close>

definition exit_keyword :: ustr where
  "exit_keyword = [1074, 1099, 1093, 1086, 1076]"

text \<open>The content of the tool message for arguments that are not JSON.\<close>

definition json_error_text :: ustr where
  "json_error_text =
     [1054, 1096, 1080, 1073, 1082, 1072, 58, 32, 1085, 1077, 1074, 1077, 1088, 1085, 1099, 1081,
      32, 1092, 1086, 1088, 1084, 1072, 1090, 32, 1072, 1088, 1075, 1091, 1084, 1077, 1085, 1090,
      1086, 1074, 32, 74, 83, 79, 78, 46]"

text \<open>The prefix of the content of the tool message for a failed invocation.\<close>

definition tool_error_prefix :: ustr where
  "tool_error_prefix =
     [1054, 1096, 1080, 1073, 1082, 1072, 32, 1074, 1099, 1087, 1086, 1083, 1085, 1077, 1085, 1080,
      1103, 32, 1080, 1085, 1089, 1090, 1088, 1091, 1084, 1077, 1085, 1090, 1072, 58, 32]"

definition system_prompt :: ustr where
  "system_prompt =
     [1058, 1099, 32, 1087, 1086, 1083, 1077, 1079, 1085, 1099, 1081, 32, 1088, 1091, 1089, 1089,
      1082, 1086, 1103, 1079, 1099, 1095, 1085, 1099, 1081, 32, 1072, 1089, 1089, 1080, 1089, 1090,
      1077, 1085, 1090, 45, 1082, 1072, 1083, 1100, 1082, 1091, 1083, 1103, 1090, 1086, 1088, 46,
      32, 1059, 32, 1090, 1077, 1073, 1103, 32, 1077, 1089, 1090, 1100, 32, 1076, 1086, 1089,
      1090, 1091, 1087, 32, 1082, 32, 1089, 1083, 1077, 1076, 1091, 1102, 1097, 1080, 1084, 32,
      1084, 1072, 1090, 1077, 1084, 1072, 1090, 1080, 1095, 1077, 1089, 1082, 1080, 1084, 32, 1080,
      1085, 1089, 1090, 1088, 1091, 1084, 1077, 1085, 1090, 1072, 1084, 58, 10, 49, 46, 32,
      97, 100, 100, 32, 45, 32, 1089, 1083, 1086, 1078, 1077, 1085, 1080, 1077, 32, 1076,
      1074, 1091, 1093, 32, 1095, 1080, 1089, 1077, 1083, 10, 50, 46, 32, 115, 117, 98,
      116, 114, 97, 99, 116, 32, 45, 32, 1074, 1099, 1095, 1080, 1090, 1072, 1085, 1080,
      1077, 32, 1076, 1074, 1091, 1093, 32, 1095, 1080, 1089, 1077, 1083, 10, 10, 1050, 1086,
      1075, 1076, 1072, 32, 1087, 1086, 1083, 1100, 1079, 1086, 1074, 1072, 1090, 1077, 1083, 1100,
      32, 1087, 1088, 1086, 1089, 1080, 1090, 32, 1087, 1088, 1086, 1080, 1079, 1074, 1077, 1089,
      1090, 1080, 32, 1084, 1072, 1090, 1077, 1084, 1072, 1090, 1080, 1095, 1077, 1089, 1082, 1080,
      1077, 32, 1074, 1099, 1095, 1080, 1089, 1083, 1077, 1085, 1080, 1103, 58, 10, 45, 32,
      1048, 1089, 1087, 1086, 1083, 1100, 1079, 1091, 1081, 32, 97, 100, 100, 32, 1076, 1083,
      1103, 32, 1089, 1083, 1086, 1078, 1077, 1085, 1080, 1103, 10, 45, 32, 1048, 1089, 1087,
      1086, 1083, 1100, 1079, 1091, 1081, 32, 115, 117, 98, 116, 114, 97, 99, 116, 32,
      1076, 1083, 1103, 32, 1074, 1099, 1095, 1080, 1090, 1072, 1085, 1080, 1103, 10, 10, 10,
      1042, 1089, 1077, 1075, 1076, 1072, 32, 1080, 1089, 1087, 1086, 1083, 1100, 1079, 1091, 1081,
      32, 1080, 1085, 1089, 1090, 1088, 1091, 1084, 1077, 1085, 1090, 1099, 32, 1076, 1083, 1103,
      32, 1074, 1099, 1095, 1080, 1089, 1083, 1077, 1085, 1080, 1081, 44, 32, 1076, 1072, 1078,
      1077, 32, 1076, 1083, 1103, 32, 1087, 1088, 1086, 1089, 1090, 1099, 1093, 32, 1086, 1087,
      1077, 1088, 1072, 1094, 1080, 1081, 46]"

section \<open>The chat loop of \<^verbatim>\<open>run_client\<close>\<close>

text \<open>\<^verbatim>\<open>s.strip()\<close>: the leading and the trailing white space removed.\<close>

definition strip :: "(nat \<Rightarrow> bool) \<Rightarrow> ustr \<Rightarrow> ustr" where
  "strip sp s = rev (dropWhile sp (rev (dropWhile sp s)))"

text \<open>
  The body of the \<^verbatim>\<open>try\<close> of one tool call: decode the arguments, call the tool. Both
  statements are under the same two handlers, so the exception of either leaves the body
  with its class.
\<close>

definition invoke_tool ::
  "'j environment \<Rightarrow> tool_call \<Rightarrow> 'j client_state \<Rightarrow> (lib_error + ustr) \<times> 'j client_state" where
  "invoke_tool env tc s =
     (case json_loads env (call_arguments tc) of
        Inl e \<Rightarrow> (Inl e, s)
      | Inr function_args \<Rightarrow>
          (let s1 = s\<lparr>printed := printed s @ [Tool_arguments function_args],
                      invocations := invocations s @ [(call_name tc, function_args)]\<rparr>
           in case call_tool env (length (invocations s)) (call_name tc) function_args of
                Inl e \<Rightarrow> (Inl e, s1)
              | Inr res \<Rightarrow> (Inr res, s1\<lparr>printed := printed s1 @ [Tool_result res]\<rparr>)))"

text \<open>One pass of \<^verbatim>\<open>for tool_call in tool_calls\<close>: the message the pass appends to
  \<^verbatim>\<open>tool_results_messages\<close>, and the state after it.\<close>

definition process_tool_call ::
  "'j environment \<Rightarrow> tool_call \<Rightarrow> 'j client_state \<Rightarrow> message \<times> 'j client_state" where
  "process_tool_call env tc s =
     (case invoke_tool env tc s of
        (Inr res, s1) \<Rightarrow> (Tool_message (call_id tc) (call_name tc) res, s1)
      | (Inl (JSONDecodeError m), s1) \<Rightarrow>
          (Tool_message (call_id tc) (call_name tc) json_error_text,
           s1\<lparr>printed := printed s1 @ [Arguments_error (call_arguments tc) m]\<rparr>)
      | (Inl (OtherException m), s1) \<Rightarrow>
          (Tool_message (call_id tc) (call_name tc) (tool_error_prefix @ m),
           s1\<lparr>printed := printed s1 @ [Tool_error (call_name tc) m]\<rparr>))"

fun dispatch_tools ::
  "'j environment \<Rightarrow> tool_call list \<Rightarrow> message list \<Rightarrow> 'j client_state
     \<Rightarrow> message list \<times> 'j client_state" where
  "dispatch_tools env [] tool_results_messages s = (tool_results_messages, s)"
| "dispatch_tools env (tc # tcs) tool_results_messages s =
     (case process_tool_call env tc s of
        (m, s1) \<Rightarrow> dispatch_tools env tcs (tool_results_messages @ [m]) s1)"

definition first_request :: "openai_tool list \<Rightarrow> message list \<Rightarrow> request" where
  "first_request openai_tools ms =
     \<lparr>req_model = ''gpt-4o'', req_messages = ms,
      req_tools = Given (if openai_tools \<noteq> [] then Some openai_tools else None),
      req_tool_choice = Given ''auto''\<rparr>"

definition second_request :: "message list \<Rightarrow> request" where
  "second_request ms =
     \<lparr>req_model = ''gpt-4o'', req_messages = ms, req_tools = Not_given,
      req_tool_choice = Not_given\<rparr>"

text \<open>Appending the final answer to the history and printing it.\<close>

definition give_answer :: "ustr option \<Rightarrow> 'j client_state \<Rightarrow> 'j client_state" where
  "give_answer final_answer s =
     s\<lparr>messages := messages s @ [Assistant_message final_answer],
       printed := printed s @ [Assistant_says final_answer]\<rparr>"

text \<open>Sending a request: it is logged, then the endpoint answers or raises.\<close>

definition send_request ::
  "'j environment \<Rightarrow> request \<Rightarrow> 'j client_state
     \<Rightarrow> (lib_error + response_message) \<times> 'j client_state" where
  "send_request env r s = (completions_create env r, s\<lparr>requests := requests s @ [r]\<rparr>)"

datatype control = Continue | Break

text \<open>The branch \<^verbatim>\<open>if tool_calls:\<close> of a turn.\<close>

definition answer_with_tools ::
  "'j environment \<Rightarrow> response_message \<Rightarrow> tool_call list \<Rightarrow> 'j client_state
     \<Rightarrow> control \<times> 'j client_state" where
  "answer_with_tools env response_message tool_calls s =
     (let s1 = s\<lparr>printed := printed s @ [Calling_tools (map call_name tool_calls)],
                 messages := messages s @ [Response_object response_message]\<rparr>
      in case dispatch_tools env tool_calls [] s1 of
           (tool_results_messages, s2) \<Rightarrow>
             (let s3 = s2\<lparr>messages := messages s2 @ tool_results_messages\<rparr>
              in case send_request env (second_request (messages s3)) s3 of
                   (Inl e, s4) \<Rightarrow> (Break, s4\<lparr>printed := printed s4 @ [Loop_error (LibError e)]\<rparr>)
                 | (Inr second_response, s4) \<Rightarrow>
                     (Continue, give_answer (msg_content second_response) s4)))"

text \<open>
  One pass of \<^verbatim>\<open>while True\<close> on the line \<open>user_request\<close> that \<^verbatim>\<open>input\<close> returned.
  An exception inside the pass is caught by the handler of the loop, which prints it and
  leaves the loop.
\<close>

definition chat_turn ::
  "'j environment \<Rightarrow> openai_tool list \<Rightarrow> ustr \<Rightarrow> 'j client_state \<Rightarrow> control \<times> 'j client_state" where
  "chat_turn env openai_tools user_request s =
     (if str_lower env (strip (str_isspace env) user_request) = exit_keyword then
        (Break, s\<lparr>printed := printed s @ [Exit_by_user]\<rparr>)
      else if strip (str_isspace env) user_request = [] then (Continue, s)
      else
        (let s1 = s\<lparr>messages := messages s @ [User_message user_request]\<rparr>
         in case send_request env (first_request openai_tools (messages s1)) s1 of
              (Inl e, s2) \<Rightarrow> (Break, s2\<lparr>printed := printed s2 @ [Loop_error (LibError e)]\<rparr>)
            | (Inr response_message, s2) \<Rightarrow>
                (case msg_tool_calls response_message of
                   Some (tc # tcs) \<Rightarrow> answer_with_tools env response_message (tc # tcs) s2
                 | _ \<Rightarrow> (Continue, give_answer (msg_content response_message) s2))))"

text \<open>
  The loop. Standard input is the list of the lines still to be read, followed by the end
  of input, at which \<^verbatim>\<open>input\<close> raises \<^verbatim>\<open>EOFError\<close> and the handler leaves the loop.
\<close>

fun chat_loop ::
  "'j environment \<Rightarrow> openai_tool list \<Rightarrow> ustr list \<Rightarrow> 'j client_state \<Rightarrow> 'j client_state" where
  "chat_loop env openai_tools [] s = s\<lparr>printed := printed s @ [Loop_error EOFError]\<rparr>"
| "chat_loop env openai_tools (user_request # stdin) s =
     (case chat_turn env openai_tools user_request s of
        (Break, s1) \<Rightarrow> s1
      | (Continue, s1) \<Rightarrow> chat_loop env openai_tools stdin s1)"

section \<open>Start and end of \<^verbatim>\<open>run_client\<close>\<close>

text \<open>Listing and converting the tools, under the handler that falls back to no tools.\<close>

definition discover_tools :: "'j environment \<Rightarrow> openai_tool list \<times> 'j out_event list" where
  "discover_tools env =
     (case list_tools env of
        Inl e \<Rightarrow> ([], [Tools_error (LibError e)])
      | Inr Absent \<Rightarrow> ([], [Tools_error (AttributeError ''tools'')])
      | Inr IsNone \<Rightarrow> ([], [No_tools])
      | Inr (Has []) \<Rightarrow> ([], [No_tools])
      | Inr (Has (t # ts)) \<Rightarrow>
          (case convert_tools (t # ts) of
             (ws, Inl e) \<Rightarrow>
               ([], Tools_received (length (t # ts)) # map Warned ws @ [Tools_error e])
           | (ws, Inr ds) \<Rightarrow>
               (ds, Tools_received (length (t # ts)) # map Warned ws @ [Tools_converted])))"

text \<open>Leaving the two \<^verbatim>\<open>async with\<close> scopes, which happens on every way out of them.\<close>

definition release :: "'j client_state \<Rightarrow> 'j client_state" where
  "release s = s\<lparr>session_open := False, connection_open := False\<rparr>"

text \<open>
  \<^verbatim>\<open>run_client\<close> on the lines of standard input: the exception that leaves it, if any,
  and the final state.
\<close>

definition run_client :: "'j environment \<Rightarrow> ustr list \<Rightarrow> exn option \<times> 'j client_state" where
  "run_client env stdin =
     (if \<not> api_key_set env then (None, initial_state\<lparr>printed := [Setup_error]\<rparr>)
      else case stdio_connect env of
        Some e \<Rightarrow> (Some (LibError e), initial_state)
      | None \<Rightarrow>
          (let s0 = initial_state\<lparr>connection_open := True\<rparr>
           in case session_enter env of
                Some e \<Rightarrow> (Some (LibError e), release s0)
              | None \<Rightarrow>
                  (let s1 = s0\<lparr>session_open := True\<rparr>
                   in case session_initialize env of
                        Some e \<Rightarrow> (Some (LibError e), release s1)
                      | None \<Rightarrow>
                          (case discover_tools env of
                             (openai_tools, out) \<Rightarrow>
                               (let s2 = s1\<lparr>printed := out,
                                           messages := [System_message system_prompt]\<rparr>
                                in (None, release (chat_loop env openai_tools stdin s2)))))))"

section \<open>Notions used to state the properties\<close>

text \<open>An argument is translated when \<^verbatim>\<open>arg_name\<close> is truthy: a text that is not empty.\<close>

definition has_name :: "mcp_argument \<Rightarrow> bool" where
  "has_name a = truthy (getattr (arg_name a) PyNone)"

definition name_of :: "mcp_argument \<Rightarrow> string" where
  "name_of a = (case arg_name a of Has n \<Rightarrow> n | _ \<Rightarrow> [])"

text \<open>The property a named argument is translated to.\<close>

definition translated :: "mcp_argument \<Rightarrow> property" where
  "translated a = \<lparr>prop_type = ''string'',
     prop_description = (case arg_description a of Has s \<Rightarrow> PyStr s | _ \<Rightarrow> PyStr [])\<rparr>"

fun is_str :: "pyval \<Rightarrow> bool" where
  "is_str (PyStr s) = True"
| "is_str PyNone = False"

section \<open>Sample descriptors and a sample environment\<close>

definition add_tool :: mcp_tool where
  "add_tool = \<lparr>tool_name = Has ''add'', tool_description = IsNone,
     tool_arguments = Has
       [\<lparr>arg_name = Has ''a'', arg_description = IsNone, arg_required = Has True\<rparr>,
        \<lparr>arg_name = Has ''b'', arg_description = Has ''second number'', arg_required = Absent\<rparr>]\<rparr>"

definition dup_tool :: mcp_tool where
  "dup_tool = \<lparr>tool_name = Has ''add'', tool_description = Has ''Add'',
     tool_arguments = Has
       [\<lparr>arg_name = Has ''a'', arg_description = Has ''first'', arg_required = Has True\<rparr>,
        \<lparr>arg_name = Has ''a'', arg_description = Has ''second'', arg_required = Has True\<rparr>]\<rparr>"

text \<open>Two arguments named \<^verbatim>\<open>a\<close>: the first has the description \<^verbatim>\<open>None\<close>, the second a text.\<close>

definition shadow_tool :: mcp_tool where
  "shadow_tool = \<lparr>tool_name = Has ''add'', tool_description = Has ''Add'',
     tool_arguments = Has
       [\<lparr>arg_name = Has ''a'', arg_description = IsNone, arg_required = Absent\<rparr>,
        \<lparr>arg_name = Has ''a'', arg_description = Has ''x'', arg_required = Absent\<rparr>]\<rparr>"

definition ping_tool :: mcp_tool where
  "ping_tool = \<lparr>tool_name = Has ''ping'', tool_description = Absent, tool_arguments = Absent\<rparr>"

text \<open>
  A batch of three tool calls: arguments \<^verbatim>\<open>{}\<close> for \<^verbatim>\<open>add\<close>, arguments \<^verbatim>\<open>{\<close> that are
  not JSON, and arguments \<^verbatim>\<open>{}\<close> for \<^verbatim>\<open>div\<close>, which the sample tool server refuses.
\<close>

definition demo_calls :: "tool_call list" where
  "demo_calls =
     [\<lparr>call_id = [49], call_name = [97, 100, 100], call_arguments = [123, 125]\<rparr>,
      \<lparr>call_id = [50], call_name = [97, 100, 100], call_arguments = [123]\<rparr>,
      \<lparr>call_id = [51], call_name = [100, 105, 118], call_arguments = [123, 125]\<rparr>]"

text \<open>
  The sample environment: the endpoint asks for the batch when the request passes
  \<^verbatim>\<open>tools\<close> and answers \<^verbatim>\<open>4\<close> otherwise; listing the tools fails. Decoding \<^verbatim>\<open>[\<close>
  raises an exception that is not a \<^verbatim>\<open>JSONDecodeError\<close>; the tool \<^verbatim>\<open>json\<close> raises a
  \<^verbatim>\<open>JSONDecodeError\<close> of its own, with the text \<^verbatim>\<open>x\<close>; every tool but it and \<^verbatim>\<open>add\<close>
  raises another exception.
\<close>

definition demo_env :: "ustr environment" where
  "demo_env =
     \<lparr>str_isspace = (\<lambda>c. c = 32 \<or> (9 \<le> c \<and> c \<le> 13)),
      str_lower = map (\<lambda>c. if (65 \<le> c \<and> c \<le> 90) \<or> (1040 \<le> c \<and> c \<le> 1071) then c + 32 else c),
      json_loads = (\<lambda>a. if a = [123, 125] then Inr a
                         else if a = [91] then Inl (OtherException [100, 101, 101, 112])
                         else Inl (JSONDecodeError [98, 97, 100])),
      completions_create =
        (\<lambda>r. case req_tools r of
               Given ts \<Rightarrow> Inr \<lparr>msg_content = None, msg_tool_calls = Some demo_calls\<rparr>
             | Not_given \<Rightarrow> Inr \<lparr>msg_content = Some [52], msg_tool_calls = None\<rparr>),
      call_tool = (\<lambda>n name a. if name = [97, 100, 100] then Inr [52]
                                else if name = [106, 115, 111, 110] then Inl (JSONDecodeError [120])
                                else Inl (OtherException [110, 111])),
      list_tools = Inl (OtherException [100, 111, 119, 110]),
      api_key_set = True, stdio_connect = None, session_enter = None,
      session_initialize = None\<rparr>"

section \<open>The translator: auxiliary facts\<close>

lemma has_name_iff: "has_name a \<longleftrightarrow> (\<exists>n. arg_name a = Has n \<and> n \<noteq> [])"
  by (cases "arg_name a") (auto simp: has_name_def)

lemma py_or_descr:
  "py_or (getattr d (PyStr [])) (PyStr []) = (case d of Has s \<Rightarrow> PyStr s | _ \<Rightarrow> PyStr [])"
  by (cases d) (auto simp: py_or_def)

lemma add_argument_properties:
  "properties (add_argument n a ps) = AList.update n (translated a) (properties ps)"
  by (simp add: add_argument_def Let_def translated_def py_or_descr)

lemma add_argument_required:
  "required (add_argument n a ps) =
     required ps @ (if required_flag (arg_required a) then [n] else [])"
  by (simp add: add_argument_def Let_def)

lemma convert_step_named:
  "has_name a \<Longrightarrow>
     convert_arguments tn (a # as) ps ws = convert_arguments tn as (add_argument (name_of a) a ps) ws"
  by (auto simp: has_name_iff name_of_def)

lemma convert_step_nameless:
  "\<not> has_name a \<Longrightarrow>
     convert_arguments tn (a # as) ps ws =
       (case read_attr ''name'' tn of
          Inl e \<Rightarrow> (ws, Inl e)
        | Inr v \<Rightarrow> convert_arguments tn as ps (ws @ [Arg_without_name v]))"
  by (cases "arg_name a") (auto simp: has_name_def)

lemma convert_Cons_cases:
  assumes "convert_arguments tn (a # as) ps ws = (ws', Inr ps')"
  obtains (named) "has_name a"
      "convert_arguments tn as (add_argument (name_of a) a ps) ws = (ws', Inr ps')"
  | (nameless) v where "\<not> has_name a" "read_attr ''name'' tn = Inr v"
      "convert_arguments tn as ps (ws @ [Arg_without_name v]) = (ws', Inr ps')"
proof (cases "has_name a")
  case True
  with assms have "convert_arguments tn as (add_argument (name_of a) a ps) ws = (ws', Inr ps')"
    by (simp only: convert_step_named)
  with True show ?thesis by (rule named)
next
  case False
  from assms have "(case read_attr ''name'' tn of
          Inl e \<Rightarrow> (ws, Inl e)
        | Inr v \<Rightarrow> convert_arguments tn as ps (ws @ [Arg_without_name v])) = (ws', Inr ps')"
    by (simp only: convert_step_nameless [OF False])
  then obtain v where "read_attr ''name'' tn = Inr v"
    "convert_arguments tn as ps (ws @ [Arg_without_name v]) = (ws', Inr ps')"
    by (auto split: sum.splits)
  with False show ?thesis by (rule nameless)
qed

lemma convert_keys:
  "convert_arguments tn as ps ws = (ws', Inr ps') \<Longrightarrow>
     fst ` set (properties ps') = fst ` set (properties ps) \<union> name_of ` {a \<in> set as. has_name a}"
proof (induction as arbitrary: ps ws)
  case Nil
  then show ?case by simp
next
  case (Cons a as)
  show ?case
  proof (cases "has_name a")
    case True
    with Cons.prems have "convert_arguments tn as (add_argument (name_of a) a ps) ws = (ws', Inr ps')"
      by (simp only: convert_step_named)
    from Cons.IH [OF this] True show ?thesis
      by (auto simp: add_argument_properties dom_update)
  next
    case False
    from Cons.prems(1) obtain v where "convert_arguments tn as ps (ws @ [Arg_without_name v]) = (ws', Inr ps')"
      by (cases rule: convert_Cons_cases) (use False in auto)
    from Cons.IH [OF this] False show ?thesis by auto
  qed
qed

lemma convert_distinct:
  "convert_arguments tn as ps ws = (ws', Inr ps') \<Longrightarrow> distinct (map fst (properties ps)) \<Longrightarrow>
     distinct (map fst (properties ps'))"
proof (induction as arbitrary: ps ws)
  case Nil
  then show ?case by simp
next
  case (Cons a as)
  show ?case
  proof (cases "has_name a")
    case True
    with Cons.prems have "convert_arguments tn as (add_argument (name_of a) a ps) ws = (ws', Inr ps')"
      by (simp only: convert_step_named)
    from Cons.IH [OF this] Cons.prems(2) show ?thesis
      by (simp add: add_argument_properties distinct_update)
  next
    case False
    from Cons.prems(1) obtain v where "convert_arguments tn as ps (ws @ [Arg_without_name v]) = (ws', Inr ps')"
      by (cases rule: convert_Cons_cases) (use False in auto)
    from Cons.IH [OF this] Cons.prems(2) show ?thesis by simp
  qed
qed

lemma convert_required:
  "convert_arguments tn as ps ws = (ws', Inr ps') \<Longrightarrow>
     required ps' = required ps @
       map name_of (filter (\<lambda>a. has_name a \<and> required_flag (arg_required a)) as)"
proof (induction as arbitrary: ps ws)
  case Nil
  then show ?case by simp
next
  case (Cons a as)
  show ?case
  proof (cases "has_name a")
    case True
    with Cons.prems have "convert_arguments tn as (add_argument (name_of a) a ps) ws = (ws', Inr ps')"
      by (simp only: convert_step_named)
    from Cons.IH [OF this] True show ?thesis
      by (simp add: add_argument_required)
  next
    case False
    from Cons.prems(1) obtain v where "convert_arguments tn as ps (ws @ [Arg_without_name v]) = (ws', Inr ps')"
      by (cases rule: convert_Cons_cases) (use False in auto)
    from Cons.IH [OF this] False show ?thesis by simp
  qed
qed

lemma convert_total:
  "tn \<noteq> Absent \<or> (\<forall>a\<in>set as. has_name a) \<Longrightarrow>
     \<exists>ws' ps'. convert_arguments tn as ps ws = (ws', Inr ps')"
proof (induction as arbitrary: ps ws)
  case Nil
  then show ?case by simp
next
  case (Cons a as)
  from Cons.prems have rest: "tn \<noteq> Absent \<or> (\<forall>a\<in>set as. has_name a)" by auto
  show ?case
  proof (cases "has_name a")
    case True
    then show ?thesis
      using Cons.IH [OF rest, of "add_argument (name_of a) a ps" ws] by (simp only: convert_step_named)
  next
    case False
    with Cons.prems have "tn \<noteq> Absent" by auto
    then obtain v where "read_attr ''name'' tn = Inr v" by (cases tn) auto
    then have "convert_arguments tn (a # as) ps ws =
        convert_arguments tn as ps (ws @ [Arg_without_name v])"
      by (simp only: convert_step_nameless [OF False] sum.case)
    then show ?thesis
      using Cons.IH [OF rest, of ps "ws @ [Arg_without_name v]"] by (simp only:)
  qed
qed

lemma convert_lookup_other:
  "convert_arguments tn as ps ws = (ws', Inr ps') \<Longrightarrow>
     \<forall>b\<in>set as. has_name b \<longrightarrow> name_of b \<noteq> n \<Longrightarrow>
     map_of (properties ps') n = map_of (properties ps) n"
proof (induction as arbitrary: ps ws)
  case Nil
  then show ?case by simp
next
  case (Cons a as)
  from Cons.prems(2) have rest: "\<forall>b\<in>set as. has_name b \<longrightarrow> name_of b \<noteq> n" by simp
  show ?case
  proof (cases "has_name a")
    case True
    with Cons.prems have "convert_arguments tn as (add_argument (name_of a) a ps) ws = (ws', Inr ps')"
      by (simp only: convert_step_named)
    from Cons.IH [OF this rest] True Cons.prems(2) show ?thesis
      by (auto simp: add_argument_properties update_conv')
  next
    case False
    from Cons.prems(1) obtain v where "convert_arguments tn as ps (ws @ [Arg_without_name v]) = (ws', Inr ps')"
      by (cases rule: convert_Cons_cases) (use False in auto)
    from Cons.IH [OF this rest] show ?thesis by simp
  qed
qed

lemma convert_lookup:
  "convert_arguments tn (pre @ a # post) ps ws = (ws', Inr ps') \<Longrightarrow> has_name a \<Longrightarrow>
     \<forall>b\<in>set post. has_name b \<longrightarrow> name_of b \<noteq> name_of a \<Longrightarrow>
     map_of (properties ps') (name_of a) = Some (translated a)"
proof (induction pre arbitrary: ps ws)
  case Nil
  then have "convert_arguments tn post (add_argument (name_of a) a ps) ws = (ws', Inr ps')"
    by (simp only: convert_step_named append_Nil)
  from convert_lookup_other [OF this Nil.prems(3)] show ?case
    by (simp add: add_argument_properties update_conv')
next
  case (Cons b pre)
  show ?case
  proof (cases "has_name b")
    case True
    with Cons.prems(1) have "convert_arguments tn (pre @ a # post) (add_argument (name_of b) b ps) ws = (ws', Inr ps')"
      by (simp only: convert_step_named append_Cons)
    from Cons.IH [OF this Cons.prems(2,3)] show ?thesis .
  next
    case False
    from Cons.prems(1) obtain v where "convert_arguments tn (pre @ a # post) ps (ws @ [Arg_without_name v]) = (ws', Inr ps')"
      unfolding append_Cons by (cases rule: convert_Cons_cases) (use False in auto)
    from Cons.IH [OF this Cons.prems(2,3)] show ?thesis .
  qed
qed

lemma convert_warnings:
  "convert_arguments tn as ps ws = (ws', Inr ps') \<Longrightarrow>
     ws' = ws @ replicate (length (filter (\<lambda>a. \<not> has_name a) as)) (Arg_without_name (getattr tn PyNone))"
proof (induction as arbitrary: ps ws)
  case Nil
  then show ?case by simp
next
  case (Cons a as)
  show ?case
  proof (cases "has_name a")
    case True
    with Cons.prems have "convert_arguments tn as (add_argument (name_of a) a ps) ws = (ws', Inr ps')"
      by (simp only: convert_step_named)
    from Cons.IH [OF this] True show ?thesis by simp
  next
    case False
    from Cons.prems(1) obtain v where v: "read_attr ''name'' tn = Inr v"
      and "convert_arguments tn as ps (ws @ [Arg_without_name v]) = (ws', Inr ps')"
      by (cases rule: convert_Cons_cases) (use False in auto)
    from Cons.IH [OF this(2)] False v show ?thesis
      by (cases tn) (auto simp: replicate_append_same)
  qed
qed

lemma update_member:
  "(k', p) \<in> set (AList.update k v al) \<Longrightarrow> (k', p) = (k, v) \<or> (k', p) \<in> set al"
  by (induction al) (auto split: if_splits)

lemma convert_values:
  "convert_arguments tn as ps ws = (ws', Inr ps') \<Longrightarrow> (k, p) \<in> set (properties ps') \<Longrightarrow>
     (k, p) \<in> set (properties ps) \<or> (\<exists>a\<in>set as. has_name a \<and> k = name_of a \<and> p = translated a)"
proof (induction as arbitrary: ps ws)
  case Nil
  then show ?case by simp
next
  case (Cons a as)
  from Cons.prems(1) show ?case
  proof (cases rule: convert_Cons_cases)
    case named
    from Cons.IH [OF named(2) Cons.prems(2)] named(1) show ?thesis
      by (auto simp: add_argument_properties dest: update_member)
  next
    case (nameless v)
    from Cons.IH [OF nameless(3) Cons.prems(2)] show ?thesis by auto
  qed
qed

lemma translator_Inr:
  assumes "mcp_tool_to_openai_tool t = (ws, Inr d)"
  shows "convert_arguments (tool_name t) (arguments_of (tool_arguments t)) empty_parameters []
           = (ws, Inr (fn_parameters (tool_function d)))"
    and "fn_name (tool_function d) = getattr (tool_name t) (PyStr ''unknown_tool'')"
    and "fn_description (tool_function d) =
           (case tool_description t of Has s \<Rightarrow> PyStr s | _ \<Rightarrow> PyStr [])"
    and "tool_type d = ''function''"
  using assms
  by (auto simp: mcp_tool_to_openai_tool_def py_or_descr split: prod.splits sum.splits)

lemma translator_total:
  assumes "tool_name t \<noteq> Absent \<or> (\<forall>a\<in>set (arguments_of (tool_arguments t)). has_name a)"
  shows "\<exists>ws d. mcp_tool_to_openai_tool t = (ws, Inr d)"
proof -
  from convert_total [OF assms] obtain ws ps where
    "convert_arguments (tool_name t) (arguments_of (tool_arguments t)) empty_parameters [] = (ws, Inr ps)"
    by blast
  then show ?thesis by (simp add: mcp_tool_to_openai_tool_def)
qed

lemma nameless_arguments_skipped:
  assumes "tool_name t \<noteq> Absent"
  shows "\<exists>d. mcp_tool_to_openai_tool t =
           (replicate (length (filter (\<lambda>a. \<not> has_name a) (arguments_of (tool_arguments t))))
              (Arg_without_name (getattr (tool_name t) PyNone)), Inr d)
         \<and> fst ` set (properties (fn_parameters (tool_function d)))
             = name_of ` {a \<in> set (arguments_of (tool_arguments t)). has_name a}
         \<and> required (fn_parameters (tool_function d))
             = map name_of (filter (\<lambda>a. has_name a \<and> required_flag (arg_required a))
                 (arguments_of (tool_arguments t)))"
proof -
  from translator_total obtain ws d where td: "mcp_tool_to_openai_tool t = (ws, Inr d)"
    using assms by blast
  let ?ps = "fn_parameters (tool_function d)"
  let ?as = "arguments_of (tool_arguments t)"
  have conv: "convert_arguments (tool_name t) ?as empty_parameters [] = (ws, Inr ?ps)"
    using td by (rule translator_Inr)
  from convert_warnings [OF conv] convert_keys [OF conv] convert_required [OF conv] td
  show ?thesis by (simp add: empty_parameters_def)
qed

section \<open>The translator: the properties\<close>

text \<open>
  C2. The translator is claimed total: it never raises and returns one descriptor, also
  when the name, the description or the argument list is missing and when arguments
  miss their own fields. The code reads the name with a default where it builds the
  result, but the warning for an argument without a name reads \<^verbatim>\<open>mcp_tool.name\<close>
  directly. On a descriptor that has no name and has an argument without a name the
  translator raises \<^verbatim>\<open>AttributeError\<close>: the evaluation below. (By \<open>translator_total\<close> it
  returns a descriptor on every other input.)
\<close>

theorem translator_raises_without_tool_name:
  "mcp_tool_to_openai_tool
     \<lparr>tool_name = Absent, tool_description = Has ''adds'',
      tool_arguments = Has [\<lparr>arg_name = Absent, arg_description = Has ''x'', arg_required = Has True\<rparr>]\<rparr>
   = ([], Inl (AttributeError ''name''))"
  by (simp add: mcp_tool_to_openai_tool_def empty_parameters_def)

text \<open>
  C3, as stated, fails where two arguments share a name: \<^verbatim>\<open>properties\<close> is a dict keyed by
  the name, so the second argument replaces the first, and the descriptor has one property
  for two named arguments.
\<close>

theorem duplicate_names_counterexample:
  "mcp_tool_to_openai_tool dup_tool =
     ([], Inr \<lparr>tool_type = ''function'',
               tool_function = \<lparr>fn_name = PyStr ''add'', fn_description = PyStr ''Add'',
                 fn_parameters = \<lparr>params_type = ''object'',
                   properties = [(''a'', \<lparr>prop_type = ''string'', prop_description = PyStr ''second''\<rparr>)],
                   required = [''a'', ''a'']\<rparr>\<rparr>\<rparr>)
   \<and> length (filter has_name (arguments_of (tool_arguments dup_tool))) = 2"
  by (simp add: mcp_tool_to_openai_tool_def empty_parameters_def dup_tool_def add_argument_def
      py_or_def has_name_def)

text \<open>
  C3, amended. For every source descriptor that the translator translates: the required
  list is a subset of the property names; the number of properties is the number of
  distinct non-empty argument names, which is the number of arguments with a non-empty
  name when these names differ from one another; and a descriptor with no arguments has
  no properties and an empty required list.
\<close>

theorem translated_parameters_shape:
  assumes "mcp_tool_to_openai_tool t = (ws, Inr d)"
  shows "set (required (fn_parameters (tool_function d)))
           \<subseteq> fst ` set (properties (fn_parameters (tool_function d)))
       \<and> length (properties (fn_parameters (tool_function d)))
           = card (name_of ` {a \<in> set (arguments_of (tool_arguments t)). has_name a})
       \<and> (distinct (map name_of (filter has_name (arguments_of (tool_arguments t)))) \<longrightarrow>
            length (properties (fn_parameters (tool_function d)))
              = length (filter has_name (arguments_of (tool_arguments t))))
       \<and> (arguments_of (tool_arguments t) = [] \<longrightarrow>
            properties (fn_parameters (tool_function d)) = [] \<and>
            required (fn_parameters (tool_function d)) = [])"
proof -
  let ?ps = "fn_parameters (tool_function d)"
  let ?as = "arguments_of (tool_arguments t)"
  have conv: "convert_arguments (tool_name t) ?as empty_parameters [] = (ws, Inr ?ps)"
    using assms by (rule translator_Inr)
  have keys: "fst ` set (properties ?ps) = name_of ` {a \<in> set ?as. has_name a}"
    using convert_keys [OF conv] by (simp add: empty_parameters_def)
  have dist: "distinct (map fst (properties ?ps))"
    using convert_distinct [OF conv] by (simp add: empty_parameters_def)
  have req: "required ?ps =
      map name_of (filter (\<lambda>a. has_name a \<and> required_flag (arg_required a)) ?as)"
    using convert_required [OF conv] by (simp add: empty_parameters_def)
  have sub: "set (required ?ps) \<subseteq> fst ` set (properties ?ps)"
    unfolding keys req by auto
  have "card (fst ` set (properties ?ps)) = length (properties ?ps)"
    using distinct_card [OF dist] by simp
  then have cnt: "length (properties ?ps) = card (name_of ` {a \<in> set ?as. has_name a})"
    using keys by simp
  have same: "length (properties ?ps) = length (filter has_name ?as)"
    if "distinct (map name_of (filter has_name ?as))"
  proof -
    have "name_of ` {a \<in> set ?as. has_name a} = set (map name_of (filter has_name ?as))"
      by auto
    then show ?thesis using cnt distinct_card [OF that] by simp
  qed
  have none: "properties ?ps = [] \<and> required ?ps = []" if "?as = []"
  proof -
    from conv that have "?ps = empty_parameters" by simp
    then show ?thesis by (simp add: empty_parameters_def)
  qed
  from sub cnt same none show ?thesis by blast
qed

theorem translated_parameters_shape_witness:
  "mcp_tool_to_openai_tool add_tool =
     ([], Inr \<lparr>tool_type = ''function'',
               tool_function = \<lparr>fn_name = PyStr ''add'', fn_description = PyStr [],
                 fn_parameters = \<lparr>params_type = ''object'',
                   properties = [(''a'', \<lparr>prop_type = ''string'', prop_description = PyStr []\<rparr>),
                                 (''b'', \<lparr>prop_type = ''string'', prop_description = PyStr ''second number''\<rparr>)],
                   required = [''a'']\<rparr>\<rparr>\<rparr>)
   \<and> card (name_of ` {a \<in> set (arguments_of (tool_arguments add_tool)). has_name a}) = 2
   \<and> length (filter has_name (arguments_of (tool_arguments add_tool))) = 2
   \<and> mcp_tool_to_openai_tool ping_tool =
     ([], Inr \<lparr>tool_type = ''function'',
               tool_function = \<lparr>fn_name = PyStr ''ping'', fn_description = PyStr [],
                 fn_parameters = \<lparr>params_type = ''object'', properties = [], required = []\<rparr>\<rparr>\<rparr>)"
proof -
  have a: "mcp_tool_to_openai_tool add_tool =
     ([], Inr \<lparr>tool_type = ''function'',
               tool_function = \<lparr>fn_name = PyStr ''add'', fn_description = PyStr [],
                 fn_parameters = \<lparr>params_type = ''object'',
                   properties = [(''a'', \<lparr>prop_type = ''string'', prop_description = PyStr []\<rparr>),
                                 (''b'', \<lparr>prop_type = ''string'', prop_description = PyStr ''second number''\<rparr>)],
                   required = [''a'']\<rparr>\<rparr>\<rparr>)"
    by (simp add: mcp_tool_to_openai_tool_def empty_parameters_def add_tool_def add_argument_def
        py_or_def)
  have p: "mcp_tool_to_openai_tool ping_tool =
     ([], Inr \<lparr>tool_type = ''function'',
               tool_function = \<lparr>fn_name = PyStr ''ping'', fn_description = PyStr [],
                 fn_parameters = \<lparr>params_type = ''object'', properties = [], required = []\<rparr>\<rparr>\<rparr>)"
    by (simp add: mcp_tool_to_openai_tool_def empty_parameters_def ping_tool_def py_or_def)
  have d: "distinct (map name_of (filter has_name (arguments_of (tool_arguments add_tool))))"
    by (simp add: add_tool_def has_name_def name_of_def)
  have e: "arguments_of (tool_arguments ping_tool) = []"
    by (simp add: ping_tool_def)
  have n: "length (filter has_name (arguments_of (tool_arguments add_tool))) = 2"
    by (simp add: add_tool_def has_name_def)
  from translated_parameters_shape [OF a] translated_parameters_shape [OF p] d e n a p
  show ?thesis by simp
qed

text \<open>
  C9. An argument without a name is claimed to be left out while the other arguments are
  still translated, the skip printing a warning without ending the translation. That is
  what happens on a descriptor that has a name (\<open>nameless_arguments_skipped\<close>). On a
  descriptor without a name the warning itself raises, as for C2, and the translation
  ends at the first argument without a name: below, the arguments \<^verbatim>\<open>a\<close> and \<^verbatim>\<open>b\<close> are
  not translated.
\<close>

theorem nameless_argument_aborts_translation:
  "mcp_tool_to_openai_tool
     \<lparr>tool_name = Absent, tool_description = Absent,
      tool_arguments = Has
        [\<lparr>arg_name = Has ''a'', arg_description = Absent, arg_required = Absent\<rparr>,
         \<lparr>arg_name = IsNone, arg_description = Absent, arg_required = Absent\<rparr>,
         \<lparr>arg_name = Has ''b'', arg_description = Absent, arg_required = Absent\<rparr>]\<rparr>
   = ([], Inl (AttributeError ''name''))"
  by (simp add: mcp_tool_to_openai_tool_def empty_parameters_def add_argument_def py_or_def)

text \<open>
  C10, as stated, fails for a named argument whose description is \<^verbatim>\<open>None\<close> when a later
  argument has the same name: the later argument replaces the property, and the
  translated descriptor holds the later description, not the empty text.
\<close>

theorem shadowed_null_description_counterexample:
  "arg_description (hd (arguments_of (tool_arguments shadow_tool))) = IsNone
   \<and> has_name (hd (arguments_of (tool_arguments shadow_tool)))
   \<and> name_of (hd (arguments_of (tool_arguments shadow_tool))) = ''a''
   \<and> mcp_tool_to_openai_tool shadow_tool =
     ([], Inr \<lparr>tool_type = ''function'',
               tool_function = \<lparr>fn_name = PyStr ''add'', fn_description = PyStr ''Add'',
                 fn_parameters = \<lparr>params_type = ''object'',
                   properties = [(''a'', \<lparr>prop_type = ''string'', prop_description = PyStr ''x''\<rparr>)],
                   required = []\<rparr>\<rparr>\<rparr>)"
  by (simp add: mcp_tool_to_openai_tool_def empty_parameters_def shadow_tool_def add_argument_def
      py_or_def has_name_def name_of_def)

text \<open>
  C10, amended. In every descriptor the translator returns, the description of the tool
  and the description of every property are texts, never \<^verbatim>\<open>None\<close>; a tool description
  that is \<^verbatim>\<open>None\<close> becomes the empty text; and the description \<^verbatim>\<open>None\<close> of a named
  argument becomes the empty text of the property of that name, when no later argument
  has the same name.
\<close>

theorem null_descriptions_normalised:
  assumes "mcp_tool_to_openai_tool t = (ws, Inr d)"
  shows "is_str (fn_description (tool_function d))
       \<and> (tool_description t = IsNone \<longrightarrow> fn_description (tool_function d) = PyStr [])
       \<and> (\<forall>(k, p) \<in> set (properties (fn_parameters (tool_function d))). is_str (prop_description p))
       \<and> (\<forall>pre a post.
            arguments_of (tool_arguments t) = pre @ a # post \<and> has_name a \<and>
            arg_description a = IsNone \<and> (\<forall>b\<in>set post. has_name b \<longrightarrow> name_of b \<noteq> name_of a)
            \<longrightarrow> map_of (properties (fn_parameters (tool_function d))) (name_of a)
                  = Some \<lparr>prop_type = ''string'', prop_description = PyStr []\<rparr>)"
proof -
  let ?ps = "fn_parameters (tool_function d)"
  let ?as = "arguments_of (tool_arguments t)"
  have conv: "convert_arguments (tool_name t) ?as empty_parameters [] = (ws, Inr ?ps)"
    using assms by (rule translator_Inr)
  have descr: "fn_description (tool_function d) =
      (case tool_description t of Has s \<Rightarrow> PyStr s | _ \<Rightarrow> PyStr [])"
    using assms by (rule translator_Inr)
  have 1: "is_str (fn_description (tool_function d))"
    unfolding descr by (cases "tool_description t") auto
  have 2: "tool_description t = IsNone \<longrightarrow> fn_description (tool_function d) = PyStr []"
    unfolding descr by simp
  have 3: "is_str (prop_description p)" if "(k, p) \<in> set (properties ?ps)" for k p
  proof -
    from convert_values [OF conv that] obtain a where "p = translated a"
      by (auto simp: empty_parameters_def)
    then show ?thesis by (cases "arg_description a") (auto simp: translated_def)
  qed
  have 4: "map_of (properties ?ps) (name_of a) = Some \<lparr>prop_type = ''string'', prop_description = PyStr []\<rparr>"
    if "?as = pre @ a # post" "has_name a" "arg_description a = IsNone"
       "\<forall>b\<in>set post. has_name b \<longrightarrow> name_of b \<noteq> name_of a" for pre a post
  proof -
    from conv that(1) have "convert_arguments (tool_name t) (pre @ a # post) empty_parameters []
        = (ws, Inr ?ps)" by simp
    from convert_lookup [OF this that(2) that(4)] that(3) show ?thesis
      by (simp add: translated_def)
  qed
  from 1 2 3 4 show ?thesis by blast
qed

theorem null_descriptions_normalised_witness:
  "mcp_tool_to_openai_tool add_tool =
     ([], Inr \<lparr>tool_type = ''function'',
               tool_function = \<lparr>fn_name = PyStr ''add'', fn_description = PyStr [],
                 fn_parameters = \<lparr>params_type = ''object'',
                   properties = [(''a'', \<lparr>prop_type = ''string'', prop_description = PyStr []\<rparr>),
                                 (''b'', \<lparr>prop_type = ''string'', prop_description = PyStr ''second number''\<rparr>)],
                   required = [''a'']\<rparr>\<rparr>\<rparr>)
   \<and> tool_description add_tool = IsNone
   \<and> arg_description \<lparr>arg_name = Has ''a'', arg_description = IsNone, arg_required = Has True\<rparr> = IsNone
   \<and> map_of [(''a'', \<lparr>prop_type = ''string'', prop_description = PyStr []\<rparr>),
             (''b'', \<lparr>prop_type = ''string'', prop_description = PyStr ''second number''\<rparr>)] ''a''
       = Some \<lparr>prop_type = ''string'', prop_description = PyStr []\<rparr>"
proof -
  let ?a = "\<lparr>arg_name = Has ''a'', arg_description = IsNone, arg_required = Has True\<rparr>"
  let ?b = "\<lparr>arg_name = Has ''b'', arg_description = Has ''second number'', arg_required = Absent\<rparr>"
  have a: "mcp_tool_to_openai_tool add_tool =
     ([], Inr \<lparr>tool_type = ''function'',
               tool_function = \<lparr>fn_name = PyStr ''add'', fn_description = PyStr [],
                 fn_parameters = \<lparr>params_type = ''object'',
                   properties = [(''a'', \<lparr>prop_type = ''string'', prop_description = PyStr []\<rparr>),
                                 (''b'', \<lparr>prop_type = ''string'', prop_description = PyStr ''second number''\<rparr>)],
                   required = [''a'']\<rparr>\<rparr>\<rparr>)"
    by (simp add: mcp_tool_to_openai_tool_def empty_parameters_def add_tool_def add_argument_def
        py_or_def)
  have h: "arguments_of (tool_arguments add_tool) = [] @ ?a # [?b] \<and> has_name ?a \<and>
      arg_description ?a = IsNone \<and> (\<forall>b\<in>set [?b]. has_name b \<longrightarrow> name_of b \<noteq> name_of ?a)"
    by (simp add: add_tool_def has_name_def name_of_def)
  have n: "name_of ?a = ''a''" by (simp add: name_of_def)
  note r = null_descriptions_normalised [OF a, THEN conjunct2, THEN conjunct2, THEN conjunct2,
      rule_format, of "[]" ?a "[?b]", OF h]
  from r h n a show ?thesis by (simp add: add_tool_def)
qed

section \<open>The chat loop: auxiliary facts\<close>

lemma invoke_tool_frame:
  "messages (snd (invoke_tool env tc s)) = messages s"
  "requests (snd (invoke_tool env tc s)) = requests s"
  "connection_open (snd (invoke_tool env tc s)) = connection_open s"
  "session_open (snd (invoke_tool env tc s)) = session_open s"
  by (simp_all add: invoke_tool_def Let_def split: sum.splits)

lemma process_tool_call_frame:
  "messages (snd (process_tool_call env tc s)) = messages s"
  "requests (snd (process_tool_call env tc s)) = requests s"
  "connection_open (snd (process_tool_call env tc s)) = connection_open s"
  "session_open (snd (process_tool_call env tc s)) = session_open s"
  using invoke_tool_frame [of env tc s]
  by (auto simp: process_tool_call_def split: prod.splits sum.splits lib_error.splits)

lemma process_tool_call_key:
  "tool_key (fst (process_tool_call env tc s)) = Some (call_id tc, call_name tc)"
  by (simp add: process_tool_call_def split: prod.splits sum.splits lib_error.splits)

text \<open>The content of the message by the outcome of the \<^verbatim>\<open>try\<close>: the handler is chosen
  by the class of the exception, whichever of the two statements raised it.\<close>

lemma process_tool_call_content:
  "fst (process_tool_call env tc s) =
     Tool_message (call_id tc) (call_name tc)
       (case fst (invoke_tool env tc s) of
          Inr res \<Rightarrow> res
        | Inl (JSONDecodeError m) \<Rightarrow> json_error_text
        | Inl (OtherException m) \<Rightarrow> tool_error_prefix @ m)"
  by (simp add: process_tool_call_def split: prod.splits sum.splits lib_error.splits)

lemma invoke_tool_cong:
  "invocations s = invocations s' \<Longrightarrow>
     fst (invoke_tool env tc s) = fst (invoke_tool env tc s') \<and>
     invocations (snd (invoke_tool env tc s)) = invocations (snd (invoke_tool env tc s'))"
  by (simp add: invoke_tool_def Let_def split: sum.splits)

lemma process_tool_call_cong:
  assumes "invocations s = invocations s'"
  shows "fst (process_tool_call env tc s) = fst (process_tool_call env tc s')"
    and "invocations (snd (process_tool_call env tc s)) = invocations (snd (process_tool_call env tc s'))"
  using invoke_tool_cong [OF assms, of env tc]
  by (auto simp: process_tool_call_def split: prod.splits sum.splits lib_error.splits)

lemma dispatch_tools_frame:
  "messages (snd (dispatch_tools env tcs acc s)) = messages s \<and>
   requests (snd (dispatch_tools env tcs acc s)) = requests s \<and>
   connection_open (snd (dispatch_tools env tcs acc s)) = connection_open s \<and>
   session_open (snd (dispatch_tools env tcs acc s)) = session_open s"
proof (induction tcs arbitrary: acc s)
  case Nil
  then show ?case by simp
next
  case (Cons tc tcs)
  obtain m s1 where p: "process_tool_call env tc s = (m, s1)" by (cases "process_tool_call env tc s")
  with process_tool_call_frame [of env tc s] Cons.IH [of "acc @ [m]" s1]
  show ?case by simp
qed

lemma dispatch_tools_step:
  "fst (dispatch_tools env (tc # tcs) acc s) =
     acc @ fst (process_tool_call env tc s) #
       fst (dispatch_tools env tcs [] (snd (process_tool_call env tc s)))"
proof -
  have gen: "fst (dispatch_tools env tcs acc s) = acc @ fst (dispatch_tools env tcs [] s)"
    for tcs acc and s :: "'a client_state"
  proof (induction tcs arbitrary: acc s)
    case Nil
    then show ?case by simp
  next
    case (Cons tc tcs)
    obtain m s1 where p: "process_tool_call env tc s = (m, s1)"
      by (cases "process_tool_call env tc s")
    from Cons.IH [of "acc @ [m]" s1] Cons.IH [of "[m]" s1] p show ?case by simp
  qed
  obtain m s1 where p: "process_tool_call env tc s = (m, s1)"
    by (cases "process_tool_call env tc s")
  with gen [of tcs "acc @ [m]" s1] show ?thesis by simp
qed


lemma dispatch_tools_keys:
  "map tool_key (fst (dispatch_tools env tcs [] s)) = map (\<lambda>tc. Some (call_id tc, call_name tc)) tcs"
proof (induction tcs arbitrary: s)
  case Nil
  then show ?case by simp
next
  case (Cons tc tcs)
  show ?case
    by (simp add: dispatch_tools_step [of env tc tcs "[]" s] process_tool_call_key Cons.IH
        del: dispatch_tools.simps(2))
qed


lemma dispatch_tools_cong:
  "invocations s = invocations s' \<Longrightarrow>
     fst (dispatch_tools env tcs [] s) = fst (dispatch_tools env tcs [] s')"
proof (induction tcs arbitrary: s s')
  case Nil
  then show ?case by simp
next
  case (Cons tc tcs)
  from process_tool_call_cong [OF Cons.prems, of env tc]
  have a: "fst (process_tool_call env tc s) = fst (process_tool_call env tc s')"
    and b: "invocations (snd (process_tool_call env tc s)) = invocations (snd (process_tool_call env tc s'))"
    by simp_all
  from Cons.IH [OF b] a show ?case
    by (simp add: dispatch_tools_step [of env tc tcs "[]"] del: dispatch_tools.simps(2))
qed

lemma answer_with_tools_eq:
  fixes s :: "'j client_state"
  defines "results \<equiv> \<lambda>env tcs (s :: 'j client_state). fst (dispatch_tools env tcs [] s)"
  shows "\<exists>s'. answer_with_tools env rm tcs s =
           (case completions_create env (second_request (messages s @ Response_object rm # results env tcs s)) of
              Inl e \<Rightarrow> Break | Inr r2 \<Rightarrow> Continue, s')
       \<and> requests s' = requests s @ [second_request (messages s @ Response_object rm # results env tcs s)]
       \<and> messages s' = messages s @ Response_object rm # results env tcs s @
            (case completions_create env (second_request (messages s @ Response_object rm # results env tcs s)) of
              Inl e \<Rightarrow> [] | Inr r2 \<Rightarrow> [Assistant_message (msg_content r2)])
       \<and> (case completions_create env (second_request (messages s @ Response_object rm # results env tcs s)) of
              Inl e \<Rightarrow> last (printed s') = Loop_error (LibError e)
            | Inr r2 \<Rightarrow> last (printed s') = Assistant_says (msg_content r2))
       \<and> connection_open s' = connection_open s \<and> session_open s' = session_open s"
proof -
  let ?s1 = "s\<lparr>printed := printed s @ [Calling_tools (map call_name tcs)],
                 messages := messages s @ [Response_object rm]\<rparr>"
  obtain rs s2 where d: "dispatch_tools env tcs [] ?s1 = (rs, s2)"
    by (cases "dispatch_tools env tcs [] ?s1")
  have rs: "rs = results env tcs s"
    using dispatch_tools_cong [of ?s1 s env tcs] d by (simp add: results_def)
  have fr: "messages s2 = messages s @ [Response_object rm]" "requests s2 = requests s"
    "connection_open s2 = connection_open s" "session_open s2 = session_open s"
    using dispatch_tools_frame [of env tcs "[]" ?s1] d by simp_all
  show ?thesis
    using d rs fr
    by (cases "completions_create env (second_request (messages s @ Response_object rm # results env tcs s))")
      (simp_all add: answer_with_tools_def Let_def send_request_def give_answer_def)
qed

lemma strip_blank:
  assumes "\<forall>c\<in>set u. sp c"
  shows "strip sp u = []"
proof -
  from assms have e: "dropWhile sp u = []" by (induction u) auto
  show ?thesis unfolding strip_def e by simp
qed

text \<open>White space around a text that neither starts nor ends with white space is what
  \<^const>\<open>strip\<close> removes.\<close>

lemma strip_surrounded:
  assumes "\<forall>c\<in>set l. sp c" and "\<forall>c\<in>set r. sp c"
    and "k \<noteq> []" and "\<not> sp (hd k)" and "\<not> sp (last k)"
  shows "strip sp (l @ k @ r) = k"
proof -
  from assms(3,4) have k: "dropWhile sp k = k" by (cases k) auto
  from assms(3,5) have rk: "dropWhile sp (rev k) = rev k" by (cases k rule: rev_cases) auto
  from assms(1) have "dropWhile sp (l @ k @ r) = dropWhile sp (k @ r)"
    by (induction l) auto
  also from assms(3,4) have "\<dots> = k @ r" by (cases k) auto
  finally have 1: "dropWhile sp (l @ k @ r) = k @ r" .
  from assms(2) have "dropWhile sp (rev r @ rev k) = dropWhile sp (rev k)"
    by (induction r rule: rev_induct) auto
  with rk have 2: "dropWhile sp (rev (k @ r)) = rev k" by simp
  show ?thesis unfolding strip_def 1 2 by simp
qed

lemma chat_turn_exit:
  "str_lower env (strip (str_isspace env) u) = exit_keyword \<Longrightarrow>
     chat_turn env tools u s = (Break, s\<lparr>printed := printed s @ [Exit_by_user]\<rparr>)"
  by (simp add: chat_turn_def)

lemma chat_turn_blank:
  "str_lower env (strip (str_isspace env) u) \<noteq> exit_keyword \<Longrightarrow>
   strip (str_isspace env) u = [] \<Longrightarrow> chat_turn env tools u s = (Continue, s)"
  by (simp add: chat_turn_def)

lemma chat_turn_failed:
  assumes "str_lower env (strip (str_isspace env) u) \<noteq> exit_keyword"
    and "strip (str_isspace env) u \<noteq> []"
    and "completions_create env (first_request tools (messages s @ [User_message u])) = Inl e"
  shows "chat_turn env tools u s =
     (Break, s\<lparr>messages := messages s @ [User_message u],
               requests := requests s @ [first_request tools (messages s @ [User_message u])],
               printed := printed s @ [Loop_error (LibError e)]\<rparr>)"
  using assms by (simp add: chat_turn_def send_request_def Let_def)

lemma chat_turn_direct:
  assumes "str_lower env (strip (str_isspace env) u) \<noteq> exit_keyword"
    and "strip (str_isspace env) u \<noteq> []"
    and "completions_create env (first_request tools (messages s @ [User_message u])) = Inr rm"
    and "msg_tool_calls rm = None \<or> msg_tool_calls rm = Some []"
  shows "chat_turn env tools u s =
     (Continue, s\<lparr>messages := messages s @ [User_message u, Assistant_message (msg_content rm)],
               requests := requests s @ [first_request tools (messages s @ [User_message u])],
               printed := printed s @ [Assistant_says (msg_content rm)]\<rparr>)"
  using assms by (auto simp: chat_turn_def send_request_def Let_def give_answer_def)

lemma chat_turn_tools:
  assumes "str_lower env (strip (str_isspace env) u) \<noteq> exit_keyword"
    and "strip (str_isspace env) u \<noteq> []"
    and "completions_create env (first_request tools (messages s @ [User_message u])) = Inr rm"
    and "msg_tool_calls rm = Some tcs" and "tcs \<noteq> []"
  shows "chat_turn env tools u s =
     answer_with_tools env rm tcs
       (s\<lparr>messages := messages s @ [User_message u],
          requests := requests s @ [first_request tools (messages s @ [User_message u])]\<rparr>)"
  using assms by (cases tcs) (simp_all add: chat_turn_def send_request_def Let_def)

lemma chat_turn_with_tools:
  assumes "str_lower env (strip (str_isspace env) u) \<noteq> exit_keyword"
    and "strip (str_isspace env) u \<noteq> []"
    and "completions_create env (first_request tools (messages s @ [User_message u])) = Inr rm"
    and "msg_tool_calls rm = Some tcs" and "tcs \<noteq> []"
  shows "\<exists>s'. chat_turn env tools u s =
           (case completions_create env (second_request
                   (messages s @ [User_message u, Response_object rm] @ fst (dispatch_tools env tcs [] s))) of
              Inl e \<Rightarrow> Break | Inr r2 \<Rightarrow> Continue, s')
       \<and> requests s' = requests s @
            [first_request tools (messages s @ [User_message u]),
             second_request (messages s @ [User_message u, Response_object rm] @ fst (dispatch_tools env tcs [] s))]
       \<and> messages s' = messages s @ [User_message u, Response_object rm] @ fst (dispatch_tools env tcs [] s) @
            (case completions_create env (second_request
                   (messages s @ [User_message u, Response_object rm] @ fst (dispatch_tools env tcs [] s))) of
              Inl e \<Rightarrow> [] | Inr r2 \<Rightarrow> [Assistant_message (msg_content r2)])
       \<and> (case completions_create env (second_request
                   (messages s @ [User_message u, Response_object rm] @ fst (dispatch_tools env tcs [] s))) of
              Inl e \<Rightarrow> last (printed s') = Loop_error (LibError e)
            | Inr r2 \<Rightarrow> last (printed s') = Assistant_says (msg_content r2))
       \<and> connection_open s' = connection_open s \<and> session_open s' = session_open s"
proof -
  let ?s2 = "s\<lparr>messages := messages s @ [User_message u],
          requests := requests s @ [first_request tools (messages s @ [User_message u])]\<rparr>"
  have r: "fst (dispatch_tools env tcs [] ?s2) = fst (dispatch_tools env tcs [] s)"
    by (rule dispatch_tools_cong) simp
  from answer_with_tools_eq [of env rm tcs ?s2] show ?thesis
    unfolding chat_turn_tools [OF assms] r by simp
qed

lemma chat_turn_requests:
  "\<exists>rs. requests (snd (chat_turn env tools u s)) = requests s @ rs \<and>
     (\<forall>r\<in>set rs. (\<exists>ms. r = first_request tools ms) \<or> (\<exists>ms. r = second_request ms))"
proof -
  consider (exit) "str_lower env (strip (str_isspace env) u) = exit_keyword"
    | (blank) "str_lower env (strip (str_isspace env) u) \<noteq> exit_keyword" "strip (str_isspace env) u = []"
    | (failed) e where "str_lower env (strip (str_isspace env) u) \<noteq> exit_keyword"
        "strip (str_isspace env) u \<noteq> []"
        "completions_create env (first_request tools (messages s @ [User_message u])) = Inl e"
    | (direct) rm where "str_lower env (strip (str_isspace env) u) \<noteq> exit_keyword"
        "strip (str_isspace env) u \<noteq> []"
        "completions_create env (first_request tools (messages s @ [User_message u])) = Inr rm"
        "msg_tool_calls rm = None \<or> msg_tool_calls rm = Some []"
    | (tools) rm tcs where "str_lower env (strip (str_isspace env) u) \<noteq> exit_keyword"
        "strip (str_isspace env) u \<noteq> []"
        "completions_create env (first_request tools (messages s @ [User_message u])) = Inr rm"
        "msg_tool_calls rm = Some tcs" "tcs \<noteq> []"
  proof (cases "str_lower env (strip (str_isspace env) u) = exit_keyword")
    case True
    then show ?thesis by (rule exit)
  next
    case ne: False
    show ?thesis
    proof (cases "strip (str_isspace env) u = []")
      case True
      with ne show ?thesis by (rule blank)
    next
      case nb: False
      show ?thesis
      proof (cases "completions_create env (first_request tools (messages s @ [User_message u]))")
        case (Inl e)
        with ne nb show ?thesis by (rule failed)
      next
        case (Inr rm)
        show ?thesis
        proof (cases "msg_tool_calls rm")
          case None
          then have "msg_tool_calls rm = None \<or> msg_tool_calls rm = Some []" by simp
          with ne nb Inr show ?thesis by (rule direct)
        next
          case (Some tcs)
          show ?thesis
          proof (cases "tcs = []")
            case True
            with Some have "msg_tool_calls rm = None \<or> msg_tool_calls rm = Some []" by simp
            with ne nb Inr show ?thesis by (rule direct)
          next
            case False
            with ne nb Inr Some show ?thesis by (rule tools)
          qed
        qed
      qed
    qed
  qed
  then show ?thesis
  proof cases
    case exit
    then show ?thesis by (simp add: chat_turn_exit)
  next
    case blank
    then show ?thesis by (simp add: chat_turn_blank)
  next
    case failed
    then show ?thesis by (auto simp: chat_turn_failed)
  next
    case direct
    show ?thesis unfolding chat_turn_direct [OF direct] by auto
  next
    case tools
    from chat_turn_with_tools [OF tools] obtain s' where
      "snd (chat_turn env tools u s) = s'"
      "requests s' = requests s @
            [first_request tools (messages s @ [User_message u]),
             second_request (messages s @ [User_message u, Response_object rm] @ fst (dispatch_tools env tcs [] s))]"
      by auto
    then show ?thesis by auto
  qed
qed

lemma chat_loop_requests:
  "\<exists>rs. requests (chat_loop env tools stdin s) = requests s @ rs \<and>
     (\<forall>r\<in>set rs. (\<exists>ms. r = first_request tools ms) \<or> (\<exists>ms. r = second_request ms))"
proof (induction stdin arbitrary: s)
  case Nil
  then show ?case by simp
next
  case (Cons u us)
  obtain c s1 where t: "chat_turn env tools u s = (c, s1)" by (cases "chat_turn env tools u s")
  from chat_turn_requests [of env tools u s] t obtain rs where
    rs: "requests s1 = requests s @ rs"
      "\<forall>r\<in>set rs. (\<exists>ms. r = first_request tools ms) \<or> (\<exists>ms. r = second_request ms)"
    by auto
  show ?case
  proof (cases c)
    case Break
    with t rs show ?thesis by auto
  next
    case Continue
    from Cons.IH [of s1] obtain rs' where
      "requests (chat_loop env tools us s1) = requests s1 @ rs'"
      "\<forall>r\<in>set rs'. (\<exists>ms. r = first_request tools ms) \<or> (\<exists>ms. r = second_request ms)"
      by auto
    with t rs Continue have "requests (chat_loop env tools (u # us) s) = requests s @ (rs @ rs')"
      "\<forall>r\<in>set (rs @ rs'). (\<exists>ms. r = first_request tools ms) \<or> (\<exists>ms. r = second_request ms)"
      by auto
    then show ?thesis by blast
  qed
qed

lemma chat_loop_exit_prefix:
  "str_lower env (strip (str_isspace env) u) = exit_keyword \<Longrightarrow>
     chat_loop env tools (pre @ u # us) s = chat_loop env tools (pre @ [u]) s"
proof (induction pre arbitrary: s)
  case Nil
  then show ?case by (simp add: chat_turn_exit)
next
  case (Cons v pre)
  then show ?case by (simp split: prod.splits control.splits)
qed

lemma run_client_released:
  "\<not> connection_open (snd (run_client env stdin)) \<and> \<not> session_open (snd (run_client env stdin))"
  by (simp add: run_client_def release_def initial_state_def Let_def split: option.splits prod.splits)

section \<open>The chat loop: the properties\<close>

text \<open>
  C1. When the response to the first request of a turn (the one request that offers the
  tools) carries tool calls, the turn appends the response, then one tool-role message
  for each call, with the id and the function name of that call and in the order of the
  calls, and only then sends the next request, whose history ends with these messages.
  \<open>results\<close> are the tool messages; \<open>tail\<close> is the final answer when the second request
  succeeds.
\<close>

theorem tool_messages_match_intents:
  assumes "str_lower env (strip (str_isspace env) u) \<noteq> exit_keyword"
    and "strip (str_isspace env) u \<noteq> []"
    and "completions_create env (first_request tools (messages s @ [User_message u])) = Inr rm"
    and "msg_tool_calls rm = Some tcs" and "tcs \<noteq> []"
  shows "\<exists>results tail c s'. chat_turn env tools u s = (c, s')
       \<and> map tool_key results = map (\<lambda>tc. Some (call_id tc, call_name tc)) tcs
       \<and> requests s' = requests s @
            [first_request tools (messages s @ [User_message u]),
             second_request (messages s @ [User_message u, Response_object rm] @ results)]
       \<and> messages s' = messages s @ [User_message u, Response_object rm] @ results @ tail
       \<and> (tail = [] \<or> (\<exists>a. tail = [Assistant_message a]))"
proof -
  let ?results = "fst (dispatch_tools env tcs [] s)"
  let ?second = "completions_create env
    (second_request (messages s @ [User_message u, Response_object rm] @ ?results))"
  let ?tail = "case ?second of Inl e \<Rightarrow> [] | Inr r2 \<Rightarrow> [Assistant_message (msg_content r2)]"
  from chat_turn_with_tools [OF assms] obtain s' where
    t: "chat_turn env tools u s = (case ?second of Inl e \<Rightarrow> Break | Inr r2 \<Rightarrow> Continue, s')"
    and r: "requests s' = requests s @
            [first_request tools (messages s @ [User_message u]),
             second_request (messages s @ [User_message u, Response_object rm] @ ?results)]"
    and m: "messages s' = messages s @ [User_message u, Response_object rm] @ ?results @ ?tail"
    by blast
  have k: "map tool_key ?results = map (\<lambda>tc. Some (call_id tc, call_name tc)) tcs"
    by (rule dispatch_tools_keys)
  have e: "?tail = [] \<or> (\<exists>a. ?tail = [Assistant_message a])"
    by (cases ?second) simp_all
  from t k r m e show ?thesis by blast
qed

theorem tool_messages_match_intents_witness:
  "str_lower demo_env (strip (str_isspace demo_env) [50, 43, 50]) \<noteq> exit_keyword
   \<and> strip (str_isspace demo_env) [50, 43, 50] \<noteq> []
   \<and> completions_create demo_env
        (first_request [] (messages (initial_state :: ustr client_state) @ [User_message [50, 43, 50]]))
       = Inr \<lparr>msg_content = None, msg_tool_calls = Some demo_calls\<rparr>
   \<and> msg_tool_calls \<lparr>msg_content = None, msg_tool_calls = Some demo_calls\<rparr> = Some demo_calls
   \<and> demo_calls \<noteq> []
   \<and> (\<exists>results tail c s'. chat_turn demo_env [] [50, 43, 50] (initial_state :: ustr client_state) = (c, s')
       \<and> map tool_key results = map (\<lambda>tc. Some (call_id tc, call_name tc)) demo_calls
       \<and> requests s' = requests (initial_state :: ustr client_state) @
            [first_request [] (messages (initial_state :: ustr client_state) @ [User_message [50, 43, 50]]),
             second_request (messages (initial_state :: ustr client_state) @
               [User_message [50, 43, 50],
                Response_object \<lparr>msg_content = None, msg_tool_calls = Some demo_calls\<rparr>] @ results)]
       \<and> messages s' = messages (initial_state :: ustr client_state) @
            [User_message [50, 43, 50],
             Response_object \<lparr>msg_content = None, msg_tool_calls = Some demo_calls\<rparr>] @ results @ tail
       \<and> (tail = [] \<or> (\<exists>a. tail = [Assistant_message a])))"
proof -
  have h1: "str_lower demo_env (strip (str_isspace demo_env) [50, 43, 50]) \<noteq> exit_keyword"
    by (simp add: demo_env_def strip_def exit_keyword_def)
  have h2: "strip (str_isspace demo_env) [50, 43, 50] \<noteq> []"
    by (simp add: demo_env_def strip_def)
  have h3: "completions_create demo_env
        (first_request [] (messages (initial_state :: ustr client_state) @ [User_message [50, 43, 50]]))
       = Inr \<lparr>msg_content = None, msg_tool_calls = Some demo_calls\<rparr>"
    by (simp add: demo_env_def first_request_def)
  have h4: "msg_tool_calls \<lparr>msg_content = None, msg_tool_calls = Some demo_calls\<rparr> = Some demo_calls"
    by simp
  have h5: "demo_calls \<noteq> []" by (simp add: demo_calls_def)
  show ?thesis
    by (intro conjI h1 h2 h3 h4 h5 tool_messages_match_intents [OF h1 h2 h3 h4 h5])
qed




text \<open>
  C5. After the tool calls of a turn, the second request carries the history with the
  response and all tool messages, passes no tool list, and, when it succeeds, its content
  is appended to the history as an assistant-role message and printed as the answer.
\<close>

theorem final_answer_after_tools:
  assumes "str_lower env (strip (str_isspace env) u) \<noteq> exit_keyword"
    and "strip (str_isspace env) u \<noteq> []"
    and "completions_create env (first_request tools (messages s @ [User_message u])) = Inr rm"
    and "msg_tool_calls rm = Some tcs" and "tcs \<noteq> []"
    and "completions_create env
           (second_request (messages s @ [User_message u, Response_object rm] @
              fst (dispatch_tools env tcs [] s))) = Inr second_response"
  shows "\<exists>s'. chat_turn env tools u s = (Continue, s')
       \<and> map tool_key (fst (dispatch_tools env tcs [] s))
           = map (\<lambda>tc. Some (call_id tc, call_name tc)) tcs
       \<and> requests s' = requests s @
            [first_request tools (messages s @ [User_message u]),
             \<lparr>req_model = ''gpt-4o'',
              req_messages = messages s @ [User_message u, Response_object rm] @
                 fst (dispatch_tools env tcs [] s),
              req_tools = Not_given, req_tool_choice = Not_given\<rparr>]
       \<and> has_tool_list (last (requests s')) = False
       \<and> messages s' = messages s @ [User_message u, Response_object rm] @
            fst (dispatch_tools env tcs [] s) @ [Assistant_message (msg_content second_response)]
       \<and> role_of (last (messages s')) = Assistant
       \<and> last (printed s') = Assistant_says (msg_content second_response)"
proof -
  let ?results = "fst (dispatch_tools env tcs [] s)"
  from chat_turn_with_tools [OF assms(1-5)] assms(6) obtain s' where
    t: "chat_turn env tools u s = (Continue, s')"
    and r: "requests s' = requests s @
            [first_request tools (messages s @ [User_message u]),
             second_request (messages s @ [User_message u, Response_object rm] @ ?results)]"
    and m: "messages s' = messages s @ [User_message u, Response_object rm] @ ?results @
            [Assistant_message (msg_content second_response)]"
    and p: "last (printed s') = Assistant_says (msg_content second_response)"
    by auto
  have k: "map tool_key ?results = map (\<lambda>tc. Some (call_id tc, call_name tc)) tcs"
    by (rule dispatch_tools_keys)
  from r have r': "requests s' = requests s @
            [first_request tools (messages s @ [User_message u]),
             \<lparr>req_model = ''gpt-4o'',
              req_messages = messages s @ [User_message u, Response_object rm] @ ?results,
              req_tools = Not_given, req_tool_choice = Not_given\<rparr>]"
    by (simp add: second_request_def)
  from r' have h: "has_tool_list (last (requests s')) = False" by simp
  from m have l: "role_of (last (messages s')) = Assistant" by simp
  from t k r' h m l p show ?thesis by blast
qed

theorem final_answer_after_tools_witness:
  "str_lower demo_env (strip (str_isspace demo_env) [50, 43, 50]) \<noteq> exit_keyword
   \<and> strip (str_isspace demo_env) [50, 43, 50] \<noteq> []
   \<and> completions_create demo_env
        (first_request [] (messages (initial_state :: ustr client_state) @ [User_message [50, 43, 50]]))
       = Inr \<lparr>msg_content = None, msg_tool_calls = Some demo_calls\<rparr>
   \<and> msg_tool_calls \<lparr>msg_content = None, msg_tool_calls = Some demo_calls\<rparr> = Some demo_calls
   \<and> demo_calls \<noteq> []
   \<and> completions_create demo_env
        (second_request (messages (initial_state :: ustr client_state) @
           [User_message [50, 43, 50],
            Response_object \<lparr>msg_content = None, msg_tool_calls = Some demo_calls\<rparr>] @
           fst (dispatch_tools demo_env demo_calls [] (initial_state :: ustr client_state))))
       = Inr \<lparr>msg_content = Some [52], msg_tool_calls = None\<rparr>
   \<and> (\<exists>s'. chat_turn demo_env [] [50, 43, 50] (initial_state :: ustr client_state) = (Continue, s')
       \<and> has_tool_list (last (requests s')) = False
       \<and> messages s' =
            [User_message [50, 43, 50],
             Response_object \<lparr>msg_content = None, msg_tool_calls = Some demo_calls\<rparr>,
             Tool_message [49] [97, 100, 100] [52],
             Tool_message [50] [97, 100, 100] json_error_text,
             Tool_message [51] [100, 105, 118] (tool_error_prefix @ [110, 111]),
             Assistant_message (Some [52])]
       \<and> last (printed s') = Assistant_says (Some [52]))"
proof -
  let ?s = "initial_state :: ustr client_state"
  let ?rm = "\<lparr>msg_content = None, msg_tool_calls = Some demo_calls\<rparr>"
  have h1: "str_lower demo_env (strip (str_isspace demo_env) [50, 43, 50]) \<noteq> exit_keyword"
    by (simp add: demo_env_def strip_def exit_keyword_def)
  have h2: "strip (str_isspace demo_env) [50, 43, 50] \<noteq> []"
    by (simp add: demo_env_def strip_def)
  have h3: "completions_create demo_env
        (first_request [] (messages ?s @ [User_message [50, 43, 50]])) = Inr ?rm"
    by (simp add: demo_env_def first_request_def)
  have h4: "msg_tool_calls ?rm = Some demo_calls"
    by simp
  have h5: "demo_calls \<noteq> []" by (simp add: demo_calls_def)
  have h6: "completions_create demo_env
        (second_request (messages ?s @ [User_message [50, 43, 50], Response_object ?rm] @
           fst (dispatch_tools demo_env demo_calls [] ?s)))
       = Inr \<lparr>msg_content = Some [52], msg_tool_calls = None\<rparr>"
    by (simp add: demo_env_def second_request_def)
  have d: "fst (dispatch_tools demo_env demo_calls [] ?s) =
     [Tool_message [49] [97, 100, 100] [52],
      Tool_message [50] [97, 100, 100] json_error_text,
      Tool_message [51] [100, 105, 118] (tool_error_prefix @ [110, 111])]"
    by (simp add: demo_calls_def demo_env_def process_tool_call_def invoke_tool_def Let_def
        initial_state_def)
  have m: "messages ?s = []" by (simp add: initial_state_def)
  from final_answer_after_tools [OF h1 h2 h3 h4 h5 h6]
  have "\<exists>s'. chat_turn demo_env [] [50, 43, 50] ?s = (Continue, s')
       \<and> has_tool_list (last (requests s')) = False
       \<and> messages s' =
            [User_message [50, 43, 50], Response_object ?rm,
             Tool_message [49] [97, 100, 100] [52],
             Tool_message [50] [97, 100, 100] json_error_text,
             Tool_message [51] [100, 105, 118] (tool_error_prefix @ [110, 111]),
             Assistant_message (Some [52])]
       \<and> last (printed s') = Assistant_says (Some [52])"
    unfolding d m by auto
  with h1 h2 h3 h4 h5 h6 show ?thesis by (intro conjI)
qed

text \<open>
  C6. A line whose stripped, lower-cased form is the exit keyword ends the loop: the turn
  only prints the farewell, the lines after it are never read, and the run leaves both
  scopes, so that the connection and the session are closed. When it is the first line of
  a session that started, the run returns with the system message as the whole history
  and no request sent.
\<close>

theorem exit_keyword_ends_session:
  assumes "str_lower env (strip (str_isspace env) u) = exit_keyword"
  shows "chat_turn env tools u s = (Break, s\<lparr>printed := printed s @ [Exit_by_user]\<rparr>)
       \<and> chat_loop env tools (u # us) s = s\<lparr>printed := printed s @ [Exit_by_user]\<rparr>
       \<and> chat_loop env tools (pre @ u # us) s = chat_loop env tools (pre @ [u]) s
       \<and> connection_open (snd (run_client env (pre @ u # us))) = False
       \<and> session_open (snd (run_client env (pre @ u # us))) = False
       \<and> (api_key_set env \<and> stdio_connect env = None \<and> session_enter env = None \<and>
          session_initialize env = None \<longrightarrow>
            run_client env (u # us) =
              (None, \<lparr>messages = [System_message system_prompt], requests = [],
                       invocations = [], printed = snd (discover_tools env) @ [Exit_by_user],
                       connection_open = False, session_open = False\<rparr>))"
proof -
  have 1: "chat_turn env tools u s = (Break, s\<lparr>printed := printed s @ [Exit_by_user]\<rparr>)"
    for tools and s :: "'a client_state"
    using assms by (rule chat_turn_exit)
  have 2: "chat_loop env tools (u # us) s = s\<lparr>printed := printed s @ [Exit_by_user]\<rparr>"
    for tools and s :: "'a client_state"
    by (simp add: 1)
  have 3: "chat_loop env tools (pre @ u # us) s = chat_loop env tools (pre @ [u]) s"
    using assms by (rule chat_loop_exit_prefix)
  have 4: "connection_open (snd (run_client env (pre @ u # us))) = False"
    "session_open (snd (run_client env (pre @ u # us))) = False"
    using run_client_released [of env "pre @ u # us"] by simp_all
  have 5: "run_client env (u # us) =
              (None, \<lparr>messages = [System_message system_prompt], requests = [],
                       invocations = [], printed = snd (discover_tools env) @ [Exit_by_user],
                       connection_open = False, session_open = False\<rparr>)"
    if "api_key_set env \<and> stdio_connect env = None \<and> session_enter env = None \<and>
          session_initialize env = None"
    using that
    by (simp add: run_client_def Let_def 2 release_def initial_state_def split: prod.splits
        del: chat_loop.simps)
  from 1 2 3 4 5 show ?thesis by blast
qed

theorem exit_keyword_ends_session_witness:
  "str_lower demo_env (strip (str_isspace demo_env) [32, 32, 1042, 1067, 1061, 1054, 1044, 32, 10])
     = exit_keyword
   \<and> chat_loop demo_env [] ([32, 32, 1042, 1067, 1061, 1054, 1044, 32, 10] # [[50, 43, 50]])
        (initial_state :: ustr client_state)
       = initial_state\<lparr>printed := printed (initial_state :: ustr client_state) @ [Exit_by_user]\<rparr>
   \<and> api_key_set demo_env \<and> stdio_connect demo_env = None \<and> session_enter demo_env = None
   \<and> session_initialize demo_env = None
   \<and> run_client demo_env ([32, 32, 1042, 1067, 1061, 1054, 1044, 32, 10] # [[50, 43, 50]]) =
        (None, \<lparr>messages = [System_message system_prompt], requests = [],
                 invocations = [], printed = snd (discover_tools demo_env) @ [Exit_by_user],
                 connection_open = False, session_open = False\<rparr>)"
proof -
  let ?u = "[32, 32, 1042, 1067, 1061, 1054, 1044, 32, 10] :: ustr"
  have h: "str_lower demo_env (strip (str_isspace demo_env) ?u) = exit_keyword"
    by (simp add: demo_env_def strip_def exit_keyword_def)
  have e: "api_key_set demo_env \<and> stdio_connect demo_env = None \<and> session_enter demo_env = None
      \<and> session_initialize demo_env = None"
    by (simp add: demo_env_def)
  note t = exit_keyword_ends_session [OF h, where tools = "[]"
      and s = "initial_state :: ustr client_state" and us = "[[50, 43, 50]]" and pre = "[]"]
  note l = t [THEN conjunct2, THEN conjunct1]
  note r = t [THEN conjunct2, THEN conjunct2, THEN conjunct2, THEN conjunct2, THEN conjunct2,
      rule_format, OF e]
  from h l e r show ?thesis by (intro conjI) simp_all
qed

text \<open>
  C7. A line that is empty or made of white space only, and is not taken for the exit
  keyword, leaves the state as it is: no message is appended, no request is sent, and the
  loop goes on with the next line.
\<close>

theorem blank_input_is_skipped:
  assumes "\<forall>c\<in>set u. str_isspace env c"
    and "str_lower env (strip (str_isspace env) u) \<noteq> exit_keyword"
  shows "chat_turn env tools u s = (Continue, s)
       \<and> chat_loop env tools (u # us) s = chat_loop env tools us s"
proof -
  from assms(1) have "strip (str_isspace env) u = []" by (rule strip_blank)
  with assms(2) have "chat_turn env tools u s = (Continue, s)" by (rule chat_turn_blank)
  then show ?thesis by simp
qed

theorem blank_input_is_skipped_witness:
  "str_isspace demo_env 32 \<and> str_isspace demo_env 9
   \<and> str_lower demo_env (strip (str_isspace demo_env) [32, 9, 32]) \<noteq> exit_keyword
   \<and> chat_turn demo_env [] [32, 9, 32] (initial_state :: ustr client_state)
       = (Continue, initial_state)
   \<and> chat_loop demo_env [] ([32, 9, 32] # [[50, 43, 50]]) (initial_state :: ustr client_state)
       = chat_loop demo_env [] [[50, 43, 50]] initial_state"
proof -
  have h1: "\<forall>c\<in>set [32, 9, 32]. str_isspace demo_env c"
    by (simp add: demo_env_def)
  have h2: "str_lower demo_env (strip (str_isspace demo_env) [32, 9, 32]) \<noteq> exit_keyword"
    by (simp add: demo_env_def strip_def exit_keyword_def)
  note t = blank_input_is_skipped [OF h1 h2, where tools = "[]"
      and s = "initial_state :: ustr client_state" and us = "[[50, 43, 50]]"]
  have h0: "str_isspace demo_env 32" "str_isspace demo_env 9"
    by (simp_all add: demo_env_def)
  from h0 h2 t show ?thesis by (intro conjI) (simp_all del: chat_loop.simps)
qed

text \<open>
  C8. When listing the tools raises, the client prints the error and goes on with the
  empty tool list: the run is the chat loop with no tools, and no request of the session
  carries a tool list (the first request of a turn passes \<^verbatim>\<open>tools=None\<close>).
\<close>

theorem tool_discovery_failure_recovered:
  assumes "list_tools env = Inl e"
  shows "discover_tools env = ([], [Tools_error (LibError e)])
       \<and> (api_key_set env \<and> stdio_connect env = None \<and> session_enter env = None \<and>
          session_initialize env = None \<longrightarrow>
            run_client env stdin =
              (None, release (chat_loop env [] stdin
                 \<lparr>messages = [System_message system_prompt], requests = [], invocations = [],
                  printed = [Tools_error (LibError e)], connection_open = True,
                  session_open = True\<rparr>)))
       \<and> (\<forall>r\<in>set (requests (snd (run_client env stdin))). has_tool_list r = False)
       \<and> req_tools (first_request [] ms) = Given None"
proof -
  have d: "discover_tools env = ([], [Tools_error (LibError e)])"
    using assms by (simp add: discover_tools_def)
  have run: "run_client env stdin =
              (None, release (chat_loop env [] stdin
                 \<lparr>messages = [System_message system_prompt], requests = [], invocations = [],
                  printed = [Tools_error (LibError e)], connection_open = True,
                  session_open = True\<rparr>))"
    if "api_key_set env \<and> stdio_connect env = None \<and> session_enter env = None \<and>
          session_initialize env = None"
    using that by (simp add: run_client_def Let_def d initial_state_def)
  have none: "has_tool_list r = False" if "r \<in> set (requests (snd (run_client env stdin)))" for r
  proof -
    have loop: "has_tool_list r = False"
      if "r \<in> set (requests (chat_loop env [] stdin s0))" "requests s0 = []"
      for s0 :: "'a client_state"
    proof -
      from chat_loop_requests [of env "[]" stdin s0] that obtain ms where
        "r = first_request [] ms \<or> r = second_request ms"
        by auto
      then show ?thesis by (auto simp: first_request_def second_request_def)
    qed
    show ?thesis
    proof (cases "api_key_set env \<and> stdio_connect env = None \<and> session_enter env = None \<and>
          session_initialize env = None")
      case True
      from run [OF True] that have "r \<in> set (requests (chat_loop env [] stdin
                 \<lparr>messages = [System_message system_prompt], requests = [], invocations = [],
                  printed = [Tools_error (LibError e)], connection_open = True,
                  session_open = True\<rparr>))"
        by (simp add: release_def)
      then show ?thesis by (rule loop) simp
    next
      case False
      then have "requests (snd (run_client env stdin)) = []"
        by (auto simp: run_client_def Let_def initial_state_def release_def split: option.splits)
      with that show ?thesis by simp
    qed
  qed
  have f: "req_tools (first_request [] ms) = Given None" by (simp add: first_request_def)
  from d run none f show ?thesis by blast
qed

theorem tool_discovery_failure_recovered_witness:
  "list_tools demo_env = Inl (OtherException [100, 111, 119, 110])
   \<and> api_key_set demo_env \<and> stdio_connect demo_env = None \<and> session_enter demo_env = None
   \<and> session_initialize demo_env = None
   \<and> discover_tools demo_env = ([], [Tools_error (LibError (OtherException [100, 111, 119, 110]))])
   \<and> first_request [] [System_message system_prompt, User_message [50, 43, 50]]
       \<in> set (requests (snd (run_client demo_env [[50, 43, 50]])))
   \<and> has_tool_list (first_request [] [System_message system_prompt, User_message [50, 43, 50]])
       = False"
proof -
  let ?e = "OtherException [100, 111, 119, 110]"
  let ?s0 = "\<lparr>messages = [System_message system_prompt], requests = [],
      invocations = [] :: (ustr \<times> ustr) list,
      printed = [Tools_error (LibError ?e)], connection_open = True, session_open = True\<rparr>"
  have h: "list_tools demo_env = Inl ?e" by (simp add: demo_env_def)
  have e: "api_key_set demo_env \<and> stdio_connect demo_env = None \<and> session_enter demo_env = None
      \<and> session_initialize demo_env = None"
    by (simp add: demo_env_def)
  note t = tool_discovery_failure_recovered [OF h, where stdin = "[[50, 43, 50]]"]
  note d = t [THEN conjunct1]
  note r = t [THEN conjunct2, THEN conjunct1, rule_format, OF e]
  note n = t [THEN conjunct2, THEN conjunct2, THEN conjunct1]
  have h1: "str_lower demo_env (strip (str_isspace demo_env) [50, 43, 50]) \<noteq> exit_keyword"
    by (simp add: demo_env_def strip_def exit_keyword_def)
  have h2: "strip (str_isspace demo_env) [50, 43, 50] \<noteq> []"
    by (simp add: demo_env_def strip_def)
  have h3: "completions_create demo_env
        (first_request [] (messages ?s0 @ [User_message [50, 43, 50]]))
       = Inr \<lparr>msg_content = None, msg_tool_calls = Some demo_calls\<rparr>"
    by (simp add: demo_env_def first_request_def)
  have h5: "demo_calls \<noteq> []" by (simp add: demo_calls_def)
  from chat_turn_with_tools [OF h1 h2 h3 _ h5] obtain c s' where
    "chat_turn demo_env [] [50, 43, 50] ?s0 = (c, s')"
    "first_request [] [System_message system_prompt, User_message [50, 43, 50]] \<in> set (requests s')"
    by auto
  then have "first_request [] [System_message system_prompt, User_message [50, 43, 50]]
      \<in> set (requests (chat_loop demo_env [] [[50, 43, 50]] ?s0))"
    by (cases c) simp_all
  with r have m: "first_request [] [System_message system_prompt, User_message [50, 43, 50]]
       \<in> set (requests (snd (run_client demo_env [[50, 43, 50]])))"
    by (simp add: release_def)
  from n m have
    f: "has_tool_list (first_request [] [System_message system_prompt, User_message [50, 43, 50]])
      = False"
    by (rule bspec)
  from h e d m f show ?thesis by (intro conjI) simp_all
qed

end
